theory Spec2Isabelle
  imports Complex_Main
begin

section \<open>Domain model\<close>

text \<open>
  The interview-practice system keeps one \<open>InterviewSession\<close> per practice run. The
  module \<open>src/core/domain/models.py\<close> that declares the classes is not among the
  sources; the records below take the constructor keywords used by
  \<open>SQLiteSessionRepository.load\<close> and the attributes read by
  \<open>SQLiteSessionRepository.save\<close>. A field is an option where \<open>save\<close> or \<open>load\<close>
  tests it for being set (the two session timestamps, the evaluation and the coaching
  feedback of an exchange) and for the current question, which a session has only once
  the first question is produced; every other field holds a value of its type.

  A naive \<open>datetime\<close> is a point on the local timeline, counted in microseconds. A
  Python \<open>float\<close> is modelled by the number it denotes; the repository only stores and
  compares such values.
\<close>

type_synonym datetime = int
type_synonym pyfloat = real

text \<open>Modelled from the spec: the members of the two enumerations (section 3 of the
  specification names the five states and gives OK/WARNING/CRITICAL as alert levels). The
  \<open>.value\<close> strings of the members are not in the sources; the model uses the
  member names, and only their being pairwise different matters.\<close>

datatype InterviewState = IDLE | INTRO | LISTENING | EVALUATING | COMPLETE

datatype CoachingAlertLevel = OK | WARNING | CRITICAL

record AnswerEvaluation =
  technical_accuracy :: int
  clarity :: int
  depth :: int
  completeness :: int
  improvement_tip :: string
  positive_note :: string

record CoachingFeedback =
  volume_status :: string
  pace_status :: string
  filler_count :: int
  words_per_minute :: pyfloat
  primary_alert :: string
  alert_level :: CoachingAlertLevel

record InterviewExchange =
  question :: string
  answer :: string
  answer_duration_seconds :: pyfloat
  evaluation :: "AnswerEvaluation option"
  coaching_feedback :: "CoachingFeedback option"
  timestamp :: datetime

record InterviewSession =
  session_id :: string
  state :: InterviewState
  resume_text :: string
  job_description :: string
  current_question :: "string option"
  started_at :: "datetime option"
  ended_at :: "datetime option"
  total_questions_asked :: int
  total_filler_words :: int
  average_wpm :: pyfloat
  exchanges :: "InterviewExchange list"

datatype error =
  OperationalError   \<comment> \<open>any exception of the sqlite3 driver or the storage below it\<close>
  | ValueError       \<comment> \<open>an enumeration or \<open>fromisoformat\<close> rejecting a text\<close>
  | OverflowError    \<comment> \<open>datetime arithmetic leaving the representable years\<close>
  | RuntimeError     \<comment> \<open>Redis unavailable and the fallback disabled\<close>
  | RedisError       \<comment> \<open>any exception of a call to the Redis client\<close>
  | PickleError      \<comment> \<open>\<open>pickle.dumps\<close> or \<open>pickle.loads\<close> failing\<close>
  | SessionError     \<comment> \<open>an orchestrator call that needs an active session\<close>
  | CollaboratorError

fun state_value :: "InterviewState \<Rightarrow> string" where
  "state_value IDLE = ''IDLE''"
| "state_value INTRO = ''INTRO''"
| "state_value LISTENING = ''LISTENING''"
| "state_value EVALUATING = ''EVALUATING''"
| "state_value COMPLETE = ''COMPLETE''"

text \<open>\<open>InterviewState(text)\<close>: the member with that value, \<open>ValueError\<close> otherwise.\<close>

definition InterviewState_of :: "string \<Rightarrow> error + InterviewState" where
  "InterviewState_of v =
     (if v = ''IDLE'' then Inr IDLE
      else if v = ''INTRO'' then Inr INTRO
      else if v = ''LISTENING'' then Inr LISTENING
      else if v = ''EVALUATING'' then Inr EVALUATING
      else if v = ''COMPLETE'' then Inr COMPLETE
      else Inl ValueError)"

fun alert_value :: "CoachingAlertLevel \<Rightarrow> string" where
  "alert_value OK = ''OK''"
| "alert_value WARNING = ''WARNING''"
| "alert_value CRITICAL = ''CRITICAL''"

definition CoachingAlertLevel_of :: "string \<Rightarrow> error + CoachingAlertLevel" where
  "CoachingAlertLevel_of v =
     (if v = ''OK'' then Inr OK
      else if v = ''WARNING'' then Inr WARNING
      else if v = ''CRITICAL'' then Inr CRITICAL
      else Inl ValueError)"

section \<open>Durable store: the SQLite schema\<close>

text \<open>
  A timestamp column holds TEXT. The text is either the ISO-8601 rendering of a datetime
  (what \<open>isoformat\<close> writes and \<open>fromisoformat\<close> accepts) or some other text, which
  \<open>fromisoformat\<close> rejects with \<open>ValueError\<close>. The character layout of ISO-8601 is
  not modelled: \<open>IsoText d\<close> stands for the rendering of \<open>d\<close>. SQLite compares two TEXT
  values bytewise, which on renderings of naive datetimes is the order of the datetimes;
  a comparison with a text that is no rendering is outside the model and answers no.
\<close>

datatype iso_text = IsoText datetime | OtherText string

definition isoformat :: "datetime \<Rightarrow> iso_text" where
  "isoformat d = IsoText d"

fun fromisoformat :: "iso_text \<Rightarrow> error + datetime" where
  "fromisoformat (IsoText d) = Inr d"
| "fromisoformat (OtherText s) = Inl ValueError"

fun text_less :: "iso_text \<Rightarrow> iso_text \<Rightarrow> bool" where
  "text_less (IsoText a) (IsoText b) = (a < b)"
| "text_less _ _ = False"

text \<open>Python truthiness of a fetched TEXT cell: NULL and the empty text are falsy.\<close>

fun truthy :: "iso_text option \<Rightarrow> bool" where
  "truthy None = False"
| "truthy (Some (OtherText s)) = (s \<noteq> [])"
| "truthy (Some (IsoText d)) = True"

text \<open>
  One record per table of \<open>_initialize_schema\<close>, one field per column. A column that
  \<open>save\<close> may bind to \<open>None\<close> is an option (NULL is \<open>None\<close>); the others always
  receive a value of the field's Python type.
\<close>

record session_row =
  c_session_id :: string
  c_state :: string
  c_resume_text :: string
  c_job_description :: string
  c_current_question :: "string option"
  c_started_at :: "iso_text option"
  c_ended_at :: "iso_text option"
  c_total_questions_asked :: int
  c_total_filler_words :: int
  c_average_wpm :: pyfloat
  c_created_at :: iso_text
  c_updated_at :: iso_text

record exchange_row =
  x_id :: nat
  x_session_id :: string
  x_question :: string
  x_answer :: string
  x_answer_duration_seconds :: pyfloat
  x_timestamp :: iso_text
  x_created_at :: iso_text

record evaluation_row =
  v_id :: nat
  v_exchange_id :: nat
  v_technical_accuracy :: int
  v_clarity :: int
  v_depth :: int
  v_completeness :: int
  v_improvement_tip :: string
  v_positive_note :: string

record coaching_row =
  f_id :: nat
  f_exchange_id :: nat
  f_volume_status :: string
  f_pace_status :: string
  f_filler_count :: int
  f_words_per_minute :: pyfloat
  f_primary_alert :: string
  f_alert_level :: string

text \<open>
  A table is the list of its rows in storage order. The three \<open>_seq\<close> fields are the
  \<open>sqlite_sequence\<close> entries of the AUTOINCREMENT keys: the largest id ever handed
  out in that table. Foreign keys are declared without \<open>ON DELETE CASCADE\<close> and the
  connection never turns their enforcement on, so deleting an exchange row leaves its
  evaluation and coaching rows in place.
\<close>

record database =
  sessions :: "session_row list"
  exchanges_tbl :: "exchange_row list"
  exchanges_seq :: nat
  evaluations :: "evaluation_row list"
  evaluations_seq :: nat
  coaching_feedback_tbl :: "coaching_row list"
  coaching_feedback_seq :: nat

definition empty_database :: database where
  "empty_database =
     \<lparr>sessions = [], exchanges_tbl = [], exchanges_seq = 0,
      evaluations = [], evaluations_seq = 0,
      coaching_feedback_tbl = [], coaching_feedback_seq = 0\<rparr>"

section \<open>Durable store: connections, statements, transactions\<close>

text \<open>
  A connection sees the committed database and its own pending changes. Every
  \<open>cursor.execute\<close> and \<open>conn.commit\<close> may raise; the fault plan names the call
  (counted from 0 inside one repository operation) at which the driver raises, and whether
  opening the connection itself fails. \<open>rollback\<close> drops the pending changes, and
  \<open>close\<close> leaves the committed database behind.
\<close>

record connection =
  committed :: database
  pending :: database
  executed :: nat

record faults =
  connect_fails :: bool
  fail_at :: "nat option"

definition no_faults :: faults where
  "no_faults = \<lparr>connect_fails = False, fail_at = None\<rparr>"

type_synonym 'a db_op = "connection \<Rightarrow> (error + 'a) \<times> connection"

definition get_connection :: "faults \<Rightarrow> database \<Rightarrow> error + connection" where
  "get_connection f db =
     (if connect_fails f then Inl OperationalError
      else Inr \<lparr>committed = db, pending = db, executed = 0\<rparr>)"

definition statement :: "faults \<Rightarrow> (database \<Rightarrow> 'a \<times> database) \<Rightarrow> 'a db_op" where
  "statement f run c =
     (if fail_at f = Some (executed c) then (Inl OperationalError, c)
      else (case run (pending c) of
              (r, db') \<Rightarrow> (Inr r, c\<lparr>pending := db', executed := Suc (executed c)\<rparr>)))"

definition commit :: "faults \<Rightarrow> unit db_op" where
  "commit f c =
     (if fail_at f = Some (executed c) then (Inl OperationalError, c)
      else (Inr (), c\<lparr>committed := pending c, executed := Suc (executed c)\<rparr>))"

definition rollback :: "connection \<Rightarrow> connection" where
  "rollback c = c\<lparr>pending := committed c\<rparr>"

definition close :: "connection \<Rightarrow> database" where
  "close c = committed c"

definition and_then :: "'a db_op \<Rightarrow> ('a \<Rightarrow> 'b db_op) \<Rightarrow> 'b db_op" where
  "and_then m k c = (case m c of (Inl e, c') \<Rightarrow> (Inl e, c') | (Inr x, c') \<Rightarrow> k x c')"

definition raise :: "error \<Rightarrow> 'a db_op" where
  "raise e c = (Inl e, c)"

definition return :: "'a \<Rightarrow> 'a db_op" where
  "return x c = (Inr x, c)"

section \<open>Durable store: the SQL statements\<close>

text \<open>\<open>SELECT ... FROM sessions WHERE session_id = ?\<close> followed by \<open>fetchone\<close>.\<close>

definition sql_select_session :: "string \<Rightarrow> database \<Rightarrow> session_row option \<times> database" where
  "sql_select_session sid db = (find (\<lambda>r. c_session_id r = sid) (sessions db), db)"

text \<open>\<open>UPDATE sessions SET state, current_question, ended_at, total_questions_asked,
  total_filler_words, average_wpm, updated_at WHERE session_id = ?\<close>.\<close>

definition sql_update_session :: "InterviewSession \<Rightarrow> iso_text \<Rightarrow> database \<Rightarrow> unit \<times> database" where
  "sql_update_session s now db =
     ((), db\<lparr>sessions :=
        map (\<lambda>r. if c_session_id r = session_id s
                 then r\<lparr>c_state := state_value (state s),
                        c_current_question := current_question s,
                        c_ended_at := map_option isoformat (ended_at s),
                        c_total_questions_asked := total_questions_asked s,
                        c_total_filler_words := total_filler_words s,
                        c_average_wpm := average_wpm s,
                        c_updated_at := now\<rparr>
                 else r)
            (sessions db)\<rparr>)"

text \<open>\<open>INSERT INTO sessions (...) VALUES (...)\<close> with all twelve columns.\<close>

definition sql_insert_session :: "InterviewSession \<Rightarrow> iso_text \<Rightarrow> database \<Rightarrow> unit \<times> database" where
  "sql_insert_session s now db =
     ((), db\<lparr>sessions := sessions db @
        [\<lparr>c_session_id = session_id s,
          c_state = state_value (state s),
          c_resume_text = resume_text s,
          c_job_description = job_description s,
          c_current_question = current_question s,
          c_started_at = map_option isoformat (started_at s),
          c_ended_at = map_option isoformat (ended_at s),
          c_total_questions_asked = total_questions_asked s,
          c_total_filler_words = total_filler_words s,
          c_average_wpm = average_wpm s,
          c_created_at = now,
          c_updated_at = now\<rparr>]\<rparr>)"

text \<open>\<open>DELETE FROM exchanges WHERE session_id = ?\<close>.\<close>

definition sql_delete_exchanges :: "string \<Rightarrow> database \<Rightarrow> unit \<times> database" where
  "sql_delete_exchanges sid db =
     ((), db\<lparr>exchanges_tbl := filter (\<lambda>r. x_session_id r \<noteq> sid) (exchanges_tbl db)\<rparr>)"

text \<open>\<open>DELETE FROM sessions WHERE session_id = ?\<close>.\<close>

definition sql_delete_session :: "string \<Rightarrow> database \<Rightarrow> unit \<times> database" where
  "sql_delete_session sid db =
     ((), db\<lparr>sessions := filter (\<lambda>r. c_session_id r \<noteq> sid) (sessions db)\<rparr>)"

text \<open>
  AUTOINCREMENT: the new id is one more than the largest id that ever existed in the
  table, which SQLite takes from the larger of the recorded sequence value and the
  largest id present.
\<close>

definition next_rowid :: "nat \<Rightarrow> nat list \<Rightarrow> nat" where
  "next_rowid seq ids = Suc (fold max ids seq)"

text \<open>\<open>INSERT INTO exchanges (...)\<close>; the result is \<open>cursor.lastrowid\<close>.\<close>

definition sql_insert_exchange ::
  "string \<Rightarrow> InterviewExchange \<Rightarrow> iso_text \<Rightarrow> database \<Rightarrow> nat \<times> database" where
  "sql_insert_exchange sid e now db =
     (let i = next_rowid (exchanges_seq db) (map x_id (exchanges_tbl db))
      in (i, db\<lparr>exchanges_tbl := exchanges_tbl db @
                  [\<lparr>x_id = i,
                    x_session_id = sid,
                    x_question = question e,
                    x_answer = answer e,
                    x_answer_duration_seconds = answer_duration_seconds e,
                    x_timestamp = isoformat (timestamp e),
                    x_created_at = now\<rparr>],
                exchanges_seq := i\<rparr>))"

definition sql_insert_evaluation :: "nat \<Rightarrow> AnswerEvaluation \<Rightarrow> database \<Rightarrow> unit \<times> database" where
  "sql_insert_evaluation exchange_id ev db =
     (let i = next_rowid (evaluations_seq db) (map v_id (evaluations db))
      in ((), db\<lparr>evaluations := evaluations db @
                   [\<lparr>v_id = i,
                     v_exchange_id = exchange_id,
                     v_technical_accuracy = technical_accuracy ev,
                     v_clarity = clarity ev,
                     v_depth = depth ev,
                     v_completeness = completeness ev,
                     v_improvement_tip = improvement_tip ev,
                     v_positive_note = positive_note ev\<rparr>],
                 evaluations_seq := i\<rparr>))"

definition sql_insert_coaching :: "nat \<Rightarrow> CoachingFeedback \<Rightarrow> database \<Rightarrow> unit \<times> database" where
  "sql_insert_coaching exchange_id cf db =
     (let i = next_rowid (coaching_feedback_seq db) (map f_id (coaching_feedback_tbl db))
      in ((), db\<lparr>coaching_feedback_tbl := coaching_feedback_tbl db @
                   [\<lparr>f_id = i,
                     f_exchange_id = exchange_id,
                     f_volume_status = volume_status cf,
                     f_pace_status = pace_status cf,
                     f_filler_count = filler_count cf,
                     f_words_per_minute = words_per_minute cf,
                     f_primary_alert = primary_alert cf,
                     f_alert_level = alert_value (alert_level cf)\<rparr>],
                 coaching_feedback_seq := i\<rparr>))"

text \<open>
  The query of \<open>load\<close>: exchanges of the session, each LEFT JOINed with the evaluation
  rows and the coaching rows that name its id (one all-NULL partner when there is none),
  \<open>ORDER BY e.id\<close>.
\<close>

definition left_partners :: "'a list \<Rightarrow> 'a option list" where
  "left_partners rows = (if rows = [] then [None] else map Some rows)"

type_synonym joined_row = "exchange_row \<times> evaluation_row option \<times> coaching_row option"

definition left_join :: "string \<Rightarrow> database \<Rightarrow> joined_row list" where
  "left_join sid db =
     concat (map (\<lambda>e.
         concat (map (\<lambda>ev.
             map (\<lambda>cf. (e, ev, cf))
               (left_partners (filter (\<lambda>r. f_exchange_id r = x_id e) (coaching_feedback_tbl db))))
           (left_partners (filter (\<lambda>r. v_exchange_id r = x_id e) (evaluations db)))))
       (filter (\<lambda>e. x_session_id e = sid) (exchanges_tbl db)))"

definition sql_select_exchanges :: "string \<Rightarrow> database \<Rightarrow> joined_row list \<times> database" where
  "sql_select_exchanges sid db = (sort_key (\<lambda>jr. x_id (fst jr)) (left_join sid db), db)"

section \<open>Durable store: save\<close>

text \<open>The body of the loop over \<open>session.exchanges\<close>: the exchange row, then its
  evaluation row and its coaching row when the exchange has them.\<close>

definition save_exchange :: "faults \<Rightarrow> iso_text \<Rightarrow> string \<Rightarrow> InterviewExchange \<Rightarrow> unit db_op" where
  "save_exchange f now sid e =
     and_then (statement f (sql_insert_exchange sid e now)) (\<lambda>exchange_id.
     and_then (case evaluation e of
                 None \<Rightarrow> return ()
               | Some ev \<Rightarrow> statement f (sql_insert_evaluation exchange_id ev)) (\<lambda>_.
     (case coaching_feedback e of
        None \<Rightarrow> return ()
      | Some cf \<Rightarrow> statement f (sql_insert_coaching exchange_id cf))))"

fun save_exchanges :: "faults \<Rightarrow> iso_text \<Rightarrow> string \<Rightarrow> InterviewExchange list \<Rightarrow> unit db_op" where
  "save_exchanges f now sid [] = return ()"
| "save_exchanges f now sid (e # es) =
     and_then (save_exchange f now sid e) (\<lambda>_. save_exchanges f now sid es)"

text \<open>The statements of the \<open>try\<close> block of \<open>save\<close>: look the session up, update
  or insert its row, delete its exchange rows, insert the current ones.\<close>

definition save_body :: "faults \<Rightarrow> datetime \<Rightarrow> InterviewSession \<Rightarrow> unit db_op" where
  "save_body f clock s =
     (let now = isoformat clock in
      and_then (statement f (sql_select_session (session_id s))) (\<lambda>row.
      and_then (if row \<noteq> None then statement f (sql_update_session s now)
                else statement f (sql_insert_session s now)) (\<lambda>_.
      and_then (statement f (sql_delete_exchanges (session_id s))) (\<lambda>_.
      save_exchanges f now (session_id s) (exchanges s)))))"

text \<open>The whole \<open>try\<close> block: the statements, then \<open>conn.commit()\<close>.\<close>

definition save_try :: "faults \<Rightarrow> datetime \<Rightarrow> InterviewSession \<Rightarrow> unit db_op" where
  "save_try f clock s = and_then (save_body f clock s) (\<lambda>_. commit f)"

text \<open>
  \<open>save\<close>: the connection is opened before the \<open>try\<close>, so a failure to open it
  propagates with nothing changed. An exception inside the \<open>try\<close> is rolled back and
  raised again; the \<open>finally\<close> closes the connection. The result is what the caller
  sees (an exception or \<open>None\<close>) and the database left behind.
\<close>

definition save :: "faults \<Rightarrow> datetime \<Rightarrow> database \<Rightarrow> InterviewSession \<Rightarrow> (error + unit) \<times> database" where
  "save f clock db s =
     (case get_connection f db of
        Inl e \<Rightarrow> (Inl e, db)
      | Inr conn \<Rightarrow>
          (case save_try f clock s conn of
             (Inr u, conn') \<Rightarrow> (Inr (), close conn')
           | (Inl e, conn') \<Rightarrow> (Inl e, close (rollback conn'))))"

section \<open>Durable store: load\<close>

text \<open>\<open>InterviewSession(...)\<close> from the fetched row; \<open>exchanges\<close> starts empty.\<close>

definition session_of_row :: "session_row \<Rightarrow> error + InterviewSession" where
  "session_of_row row =
     (case InterviewState_of (c_state row) of
        Inl e \<Rightarrow> Inl e
      | Inr st \<Rightarrow>
          (case (if truthy (c_started_at row)
                 then map_sum id Some (fromisoformat (the (c_started_at row)))
                 else Inr None) of
             Inl e \<Rightarrow> Inl e
           | Inr started \<Rightarrow>
               (case (if truthy (c_ended_at row)
                      then map_sum id Some (fromisoformat (the (c_ended_at row)))
                      else Inr None) of
                  Inl e \<Rightarrow> Inl e
                | Inr ended \<Rightarrow>
                    Inr \<lparr>session_id = c_session_id row,
                         state = st,
                         resume_text = c_resume_text row,
                         job_description = c_job_description row,
                         current_question = c_current_question row,
                         started_at = started,
                         ended_at = ended,
                         total_questions_asked = c_total_questions_asked row,
                         total_filler_words = c_total_filler_words row,
                         average_wpm = c_average_wpm row,
                         exchanges = []\<rparr>)))"

text \<open>
  One joined row to one \<open>InterviewExchange\<close>. The evaluation columns are NULL exactly
  when the LEFT JOIN found no evaluation row, and likewise for coaching.
\<close>

definition exchange_of_row :: "joined_row \<Rightarrow> error + InterviewExchange" where
  "exchange_of_row jr =
     (case jr of (e, ev, cf) \<Rightarrow>
        (let evaluation' =
               (case ev of
                  None \<Rightarrow> None
                | Some r \<Rightarrow> Some \<lparr>technical_accuracy = v_technical_accuracy r,
                                  clarity = v_clarity r,
                                  depth = v_depth r,
                                  completeness = v_completeness r,
                                  improvement_tip = v_improvement_tip r,
                                  positive_note = v_positive_note r\<rparr>)
         in case (case cf of
                    None \<Rightarrow> Inr None
                  | Some r \<Rightarrow>
                      (case CoachingAlertLevel_of (f_alert_level r) of
                         Inl err \<Rightarrow> Inl err
                       | Inr lvl \<Rightarrow> Inr (Some \<lparr>volume_status = f_volume_status r,
                                               pace_status = f_pace_status r,
                                               filler_count = f_filler_count r,
                                               words_per_minute = f_words_per_minute r,
                                               primary_alert = f_primary_alert r,
                                               alert_level = lvl\<rparr>))) of
              Inl err \<Rightarrow> Inl err
            | Inr coaching \<Rightarrow>
                (case fromisoformat (x_timestamp e) of
                   Inl err \<Rightarrow> Inl err
                 | Inr ts \<Rightarrow> Inr \<lparr>question = x_question e,
                                  answer = x_answer e,
                                  answer_duration_seconds = x_answer_duration_seconds e,
                                  evaluation = evaluation',
                                  coaching_feedback = coaching,
                                  timestamp = ts\<rparr>)))"

text \<open>The loop over \<open>cursor.fetchall()\<close>, appending in order; the first row that fails
  to convert raises.\<close>

fun load_exchanges :: "joined_row list \<Rightarrow> error + InterviewExchange list" where
  "load_exchanges [] = Inr []"
| "load_exchanges (jr # rest) =
     (case exchange_of_row jr of
        Inl err \<Rightarrow> Inl err
      | Inr x \<Rightarrow> (case load_exchanges rest of Inl err \<Rightarrow> Inl err | Inr xs \<Rightarrow> Inr (x # xs)))"

definition load_try :: "faults \<Rightarrow> string \<Rightarrow> InterviewSession option db_op" where
  "load_try f sid =
     and_then (statement f (sql_select_session sid)) (\<lambda>row.
       case row of
         None \<Rightarrow> return None
       | Some r \<Rightarrow>
           (case session_of_row r of
              Inl e \<Rightarrow> raise e
            | Inr session \<Rightarrow>
                and_then (statement f (sql_select_exchanges sid)) (\<lambda>rows.
                  case load_exchanges rows of
                    Inl e \<Rightarrow> raise e
                  | Inr xs \<Rightarrow> return (Some (session\<lparr>exchanges := xs\<rparr>)))))"

text \<open>
  \<open>load\<close>: a failure to open the connection propagates (it happens before the
  \<open>try\<close>); every exception inside the \<open>try\<close> is logged and answered with \<open>None\<close>.
\<close>

definition load :: "faults \<Rightarrow> database \<Rightarrow> string \<Rightarrow> error + InterviewSession option" where
  "load f db sid =
     (case get_connection f db of
        Inl e \<Rightarrow> Inl e
      | Inr conn \<Rightarrow>
          (case load_try f sid conn of
             (Inr r, conn') \<Rightarrow> Inr r
           | (Inl e, conn') \<Rightarrow> Inr None))"

section \<open>Durable store: cleanup of old sessions\<close>

text \<open>
  \<open>datetime.now() - timedelta(hours=max_age_hours)\<close>: exact arithmetic on the
  timeline; Python raises \<open>OverflowError\<close> when the result leaves the years 1 to 9999
  (a \<open>timedelta\<close> too large to build lands outside them as well).
\<close>

definition datetime_min :: datetime where
  "datetime_min = 0"

definition datetime_max :: datetime where
  "datetime_max = 315537897599999999"

definition minus_hours :: "datetime \<Rightarrow> int \<Rightarrow> error + datetime" where
  "minus_hours d h =
     (let r = d - h * 3600000000
      in if datetime_min \<le> r \<and> r \<le> datetime_max then Inr r else Inl OverflowError)"

text \<open>\<open>SELECT session_id FROM sessions WHERE created_at < ?\<close> with \<open>fetchall\<close>.\<close>

definition sql_select_older :: "iso_text \<Rightarrow> database \<Rightarrow> string list \<times> database" where
  "sql_select_older cutoff db =
     (map c_session_id (filter (\<lambda>r. text_less (c_created_at r) cutoff) (sessions db)), db)"

fun delete_sessions :: "faults \<Rightarrow> string list \<Rightarrow> unit db_op" where
  "delete_sessions f [] = return ()"
| "delete_sessions f (sid # rest) =
     and_then (statement f (sql_delete_exchanges sid)) (\<lambda>_.
     and_then (statement f (sql_delete_session sid)) (\<lambda>_.
     delete_sessions f rest))"

definition cleanup_try :: "faults \<Rightarrow> datetime \<Rightarrow> int \<Rightarrow> nat db_op" where
  "cleanup_try f clock max_age_hours =
     (case minus_hours clock max_age_hours of
        Inl e \<Rightarrow> raise e
      | Inr cutoff_time \<Rightarrow>
          (let cutoff = isoformat cutoff_time in
           and_then (statement f (sql_select_older cutoff)) (\<lambda>session_ids.
           and_then (delete_sessions f session_ids) (\<lambda>_.
           and_then (commit f) (\<lambda>_.
           return (length session_ids))))))"

text \<open>
  \<open>cleanup_old_sessions\<close>: an exception inside the \<open>try\<close> is rolled back and
  answered with 0.
\<close>

definition cleanup_old_sessions ::
  "faults \<Rightarrow> datetime \<Rightarrow> database \<Rightarrow> int \<Rightarrow> (error + nat) \<times> database" where
  "cleanup_old_sessions f clock db max_age_hours =
     (case get_connection f db of
        Inl e \<Rightarrow> (Inl e, db)
      | Inr conn \<Rightarrow>
          (case cleanup_try f clock max_age_hours conn of
             (Inr n, conn') \<Rightarrow> (Inr n, close conn')
           | (Inl e, conn') \<Rightarrow> (Inr 0, close (rollback conn'))))"

section \<open>Fast store\<close>

text \<open>
  The Redis server is a map from keys to a payload and the time at which Redis expires
  it. A payload is the pickle of an orchestrator or some other byte string, which
  \<open>pickle.loads\<close> rejects. The orchestrator class is left open (type \<open>'o\<close>). Every
  method makes at most one Redis call; \<open>redis_raises\<close> says that this call raises,
  \<open>pickle_raises\<close> that \<open>pickle.dumps\<close> does. Clock readings are
  \<open>datetime.now().timestamp()\<close>, in seconds.
\<close>

datatype 'o payload = Pickled 'o | Bytes string

type_synonym 'o redis_server = "string \<rightharpoonup> ('o payload \<times> real)"

record redis_faults =
  redis_raises :: bool
  pickle_raises :: bool

record 'o RedisSessionStore =
  redis :: "'o redis_server option"
  in_memory :: "string \<rightharpoonup> ('o \<times> real)"
  session_ttl_seconds :: int
  fallback_to_memory :: bool

definition session_key :: "string \<Rightarrow> string" where
  "session_key sid = ''session:'' @ sid"

definition pickle_dumps :: "redis_faults \<Rightarrow> 'o \<Rightarrow> error + 'o payload" where
  "pickle_dumps rf orch = (if pickle_raises rf then Inl PickleError else Inr (Pickled orch))"

fun pickle_loads :: "'o payload \<Rightarrow> error + 'o" where
  "pickle_loads (Pickled orch) = Inr orch"
| "pickle_loads (Bytes b) = Inl PickleError"

text \<open>What a key holds at a given time: nothing once Redis has expired it.\<close>

definition redis_live :: "real \<Rightarrow> 'o redis_server \<Rightarrow> string \<Rightarrow> 'o payload option" where
  "redis_live now srv k =
     (case srv k of
        None \<Rightarrow> None
      | Some (p, expires) \<Rightarrow> if now < expires then Some p else None)"

text \<open>\<open>SETEX\<close> (Redis refuses an expiry that is not positive), \<open>GET\<close> and \<open>DEL\<close>
  (the reply counts the keys removed).\<close>

definition redis_setex ::
  "redis_faults \<Rightarrow> real \<Rightarrow> 'o redis_server \<Rightarrow> string \<Rightarrow> int \<Rightarrow> 'o payload \<Rightarrow> error + 'o redis_server" where
  "redis_setex rf now srv k ttl p =
     (if redis_raises rf \<or> ttl \<le> 0 then Inl RedisError
      else Inr (srv(k \<mapsto> (p, now + real_of_int ttl))))"

definition redis_get ::
  "redis_faults \<Rightarrow> real \<Rightarrow> 'o redis_server \<Rightarrow> string \<Rightarrow> error + 'o payload option" where
  "redis_get rf now srv k =
     (if redis_raises rf then Inl RedisError else Inr (redis_live now srv k))"

definition redis_delete ::
  "redis_faults \<Rightarrow> real \<Rightarrow> 'o redis_server \<Rightarrow> string \<Rightarrow> error + (nat \<times> 'o redis_server)" where
  "redis_delete rf now srv k =
     (if redis_raises rf then Inl RedisError
      else Inr (if redis_live now srv k = None then 0 else 1, srv(k := None)))"

text \<open>Python truthiness of the reply of \<open>GET\<close>: \<open>None\<close> and \<open>b''\<close> are falsy.\<close>

fun reply_truthy :: "'o payload option \<Rightarrow> bool" where
  "reply_truthy None = False"
| "reply_truthy (Some (Bytes b)) = (b \<noteq> [])"
| "reply_truthy (Some (Pickled orch)) = True"

text \<open>
  \<open>__init__\<close> with \<open>_try_connect_redis\<close>: \<open>server\<close> is the Redis instance that
  answers the ping, \<open>None\<close> when the connection or the ping fails.
\<close>

definition new_store ::
  "'o redis_server option \<Rightarrow> bool \<Rightarrow> int \<Rightarrow> error + 'o RedisSessionStore" where
  "new_store server fallback ttl_hours =
     (case server of
        Some srv \<Rightarrow>
          Inr \<lparr>redis = Some srv, in_memory = Map.empty,
               session_ttl_seconds = ttl_hours * 3600, fallback_to_memory = fallback\<rparr>
      | None \<Rightarrow>
          if \<not> fallback then Inl RuntimeError
          else Inr \<lparr>redis = None, in_memory = Map.empty,
                    session_ttl_seconds = ttl_hours * 3600, fallback_to_memory = fallback\<rparr>)"

text \<open>The \<open>try\<close> block of \<open>set_orchestrator\<close>: pickle, then \<open>SETEX\<close> with the TTL.\<close>

definition store_in_redis ::
  "redis_faults \<Rightarrow> real \<Rightarrow> 'o redis_server \<Rightarrow> int \<Rightarrow> string \<Rightarrow> 'o \<Rightarrow> error + 'o redis_server" where
  "store_in_redis rf now srv ttl sid orch =
     (case pickle_dumps rf orch of
        Inl e \<Rightarrow> Inl e
      | Inr orchestrator_bytes \<Rightarrow> redis_setex rf now srv (session_key sid) ttl orchestrator_bytes)"

text \<open>
  \<open>set_orchestrator\<close>: with a Redis client, an exception of the \<open>try\<close> block is
  logged and the orchestrator is kept in the in-memory dict with the time of the write;
  without a client it goes to the dict directly. No path raises.
\<close>

definition set_orchestrator ::
  "redis_faults \<Rightarrow> real \<Rightarrow> 'o RedisSessionStore \<Rightarrow> string \<Rightarrow> 'o \<Rightarrow> (error + unit) \<times> 'o RedisSessionStore" where
  "set_orchestrator rf now st sid orch =
     (case redis st of
        Some srv \<Rightarrow>
          (case store_in_redis rf now srv (session_ttl_seconds st) sid orch of
             Inr srv' \<Rightarrow> (Inr (), st\<lparr>redis := Some srv'\<rparr>)
           | Inl e \<Rightarrow> (Inr (), st\<lparr>in_memory := (in_memory st)(sid \<mapsto> (orch, now))\<rparr>))
      | None \<Rightarrow> (Inr (), st\<lparr>in_memory := (in_memory st)(sid \<mapsto> (orch, now))\<rparr>))"

text \<open>The first half of \<open>get_orchestrator\<close>: what the Redis branch returns, \<open>None\<close>
  when it falls through to the in-memory check.\<close>

definition get_from_redis :: "redis_faults \<Rightarrow> real \<Rightarrow> 'o RedisSessionStore \<Rightarrow> string \<Rightarrow> 'o option" where
  "get_from_redis rf now st sid =
     (case redis st of
        None \<Rightarrow> None
      | Some srv \<Rightarrow>
          (case redis_get rf now srv (session_key sid) of
             Inl e \<Rightarrow> None
           | Inr orchestrator_bytes \<Rightarrow>
               if reply_truthy orchestrator_bytes
               then (case pickle_loads (the orchestrator_bytes) of
                       Inl e \<Rightarrow> None
                     | Inr orch \<Rightarrow> Some orch)
               else None))"

definition get_orchestrator ::
  "redis_faults \<Rightarrow> real \<Rightarrow> 'o RedisSessionStore \<Rightarrow> string \<Rightarrow> 'o option \<times> 'o RedisSessionStore" where
  "get_orchestrator rf now st sid =
     (case get_from_redis rf now st sid of
        Some orch \<Rightarrow> (Some orch, st)
      | None \<Rightarrow>
          (case in_memory st sid of
             Some (orch, stored_at) \<Rightarrow>
               (let age_seconds = now - stored_at
                in if age_seconds < real_of_int (session_ttl_seconds st)
                   then (Some orch, st)
                   else (None, st\<lparr>in_memory := (in_memory st)(sid := None)\<rparr>))
           | None \<Rightarrow> (None, st)))"

definition delete_orchestrator ::
  "redis_faults \<Rightarrow> real \<Rightarrow> 'o RedisSessionStore \<Rightarrow> string \<Rightarrow> bool \<times> 'o RedisSessionStore" where
  "delete_orchestrator rf now st sid =
     (case (case redis st of
              None \<Rightarrow> (False, st)
            | Some srv \<Rightarrow>
                (case redis_delete rf now srv (session_key sid) of
                   Inl e \<Rightarrow> (False, st)
                 | Inr (result, srv') \<Rightarrow> (result > 0, st\<lparr>redis := Some srv'\<rparr>))) of
        (found, st') \<Rightarrow>
          if sid \<in> dom (in_memory st')
          then (True, st'\<lparr>in_memory := (in_memory st')(sid := None)\<rparr>)
          else (found, st'))"

section \<open>Orchestrator\<close>

text \<open>
  Modelled from the spec: the class \<open>InterviewOrchestrator\<close> of
  \<open>src/app/orchestrator.py\<close> is not among the sources, only its tests are. The
  definitions of this section follow section 4.4 of the specification. The collaborators
  (transcriber, coach, evaluator) are functions that may fail. An operation returns its
  outcome, the orchestrator afterwards, and the list of collaborator calls and observer
  notifications it made, in order. The specification does not say where the duration of an
  answer and the time of an exchange come from; they are inputs here.
\<close>

datatype event =
  Transcribed string int
  | Coached string int
  | Evaluated string string
  | StateChanged InterviewState
  | FeedbackGiven CoachingFeedback

record collaborators =
  transcribe :: "string \<Rightarrow> int \<Rightarrow> error + string"
  feedback :: "string \<Rightarrow> int \<Rightarrow> error + CoachingFeedback"
  evaluate :: "string \<Rightarrow> string \<Rightarrow> InterviewExchange list \<Rightarrow> error + AnswerEvaluation"

record orchestrator =
  o_session :: "InterviewSession option"
  o_on_state_change :: bool
  o_on_feedback :: bool

text \<open>Modelled from the spec: \<open>IDLE\<close> is the state of an orchestrator with no active
  session, initially and after \<open>reset()\<close>.\<close>

definition new_orchestrator :: orchestrator where
  "new_orchestrator = \<lparr>o_session = None, o_on_state_change = False, o_on_feedback = False\<rparr>"

definition orchestrator_state :: "orchestrator \<Rightarrow> InterviewState" where
  "orchestrator_state orc = (case o_session orc of None \<Rightarrow> IDLE | Some s \<Rightarrow> state s)"

text \<open>Modelled from the spec: \<open>reset()\<close> unconditionally returns to \<open>IDLE\<close> and drops
  the in-memory session.\<close>

definition reset :: "orchestrator \<Rightarrow> orchestrator" where
  "reset orc = orc\<lparr>o_session := None\<rparr>"

text \<open>Modelled from the spec: \<open>startSession\<close> fails if a session is already active;
  otherwise it creates a session in state \<open>INTRO\<close> and notifies the state observer.\<close>

definition start_session ::
  "datetime \<Rightarrow> string \<Rightarrow> orchestrator \<Rightarrow> string \<Rightarrow> string \<Rightarrow> (error + string) \<times> orchestrator \<times> event list" where
  "start_session clock new_id orc resume jd =
     (case o_session orc of
        Some s \<Rightarrow> (Inl SessionError, orc, [])
      | None \<Rightarrow>
          (Inr new_id,
           orc\<lparr>o_session := Some \<lparr>session_id = new_id, state = INTRO, resume_text = resume,
                                   job_description = jd, current_question = None,
                                   started_at = Some clock, ended_at = None,
                                   total_questions_asked = 0, total_filler_words = 0,
                                   average_wpm = 0, exchanges = []\<rparr>\<rparr>,
           if o_on_state_change orc then [StateChanged INTRO] else []))"

definition mean_wpm :: "InterviewExchange list \<Rightarrow> pyfloat" where
  "mean_wpm xs =
     (let ws = concat (map (\<lambda>x. case coaching_feedback x of None \<Rightarrow> [] | Some c \<Rightarrow> [words_per_minute c]) xs)
      in if ws = [] then 0 else sum_list ws / real (length ws))"

text \<open>
  Modelled from the spec: \<open>processAnswer\<close> fails with a session-state error if no
  session is active. Otherwise it moves to \<open>EVALUATING\<close>, transcribes, computes the
  coaching feedback, evaluates, appends the exchange, updates the counters and notifies the
  feedback observer. A collaborator failure propagates and leaves the orchestrator as it
  was before the call, with no exchange recorded.
\<close>

definition process_answer ::
  "collaborators \<Rightarrow> datetime \<Rightarrow> pyfloat \<Rightarrow> orchestrator \<Rightarrow> string \<Rightarrow> int \<Rightarrow>
     (error + string \<times> CoachingFeedback \<times> AnswerEvaluation) \<times> orchestrator \<times> event list" where
  "process_answer col clock duration orc audio sample_rate =
     (case o_session orc of
        None \<Rightarrow> (Inl SessionError, orc, [])
      | Some s \<Rightarrow>
          (let ev0 = (if o_on_state_change orc then [StateChanged EVALUATING] else []);
               q = (case current_question s of None \<Rightarrow> [] | Some t \<Rightarrow> t)
           in case transcribe col audio sample_rate of
                Inl e \<Rightarrow> (Inl e, orc, ev0 @ [Transcribed audio sample_rate])
              | Inr transcript \<Rightarrow>
                  (case feedback col audio sample_rate of
                     Inl e \<Rightarrow> (Inl e, orc, ev0 @ [Transcribed audio sample_rate, Coached audio sample_rate])
                   | Inr coaching \<Rightarrow>
                       (case evaluate col q transcript (exchanges s) of
                          Inl e \<Rightarrow>
                            (Inl e, orc,
                             ev0 @ [Transcribed audio sample_rate, Coached audio sample_rate,
                                    Evaluated q transcript])
                        | Inr evaluation' \<Rightarrow>
                            (let xs = exchanges s @
                                   [\<lparr>question = q, answer = transcript,
                                     answer_duration_seconds = duration,
                                     evaluation = Some evaluation',
                                     coaching_feedback = Some coaching,
                                     timestamp = clock\<rparr>];
                                 s' = s\<lparr>state := EVALUATING,
                                        total_questions_asked := total_questions_asked s + 1,
                                        total_filler_words := total_filler_words s + filler_count coaching,
                                        average_wpm := mean_wpm xs,
                                        exchanges := xs\<rparr>
                             in (Inr (transcript, coaching, evaluation'),
                                 orc\<lparr>o_session := Some s'\<rparr>,
                                 ev0 @ [Transcribed audio sample_rate, Coached audio sample_rate,
                                        Evaluated q transcript]
                                   @ (if o_on_feedback orc then [FeedbackGiven coaching] else [])))))))"

section \<open>Vocabulary of the properties\<close>

subsection \<open>Counting the calls of save\<close>

text \<open>
  The number of \<open>cursor.execute\<close> calls the loop body makes for one exchange, and the
  number of driver calls of a whole \<open>save\<close>: the lookup, the update or insert, the
  delete, the loop, and the commit. A \<open>save\<close> fails when the connection cannot be
  opened or the fault plan names one of these calls.
\<close>

definition exchange_statements :: "InterviewExchange \<Rightarrow> nat" where
  "exchange_statements e =
     1 + (if evaluation e = None then 0 else 1) + (if coaching_feedback e = None then 0 else 1)"

definition save_statements :: "InterviewSession \<Rightarrow> nat" where
  "save_statements s = 3 + sum_list (map exchange_statements (exchanges s)) + 1"

definition save_fails :: "faults \<Rightarrow> InterviewSession \<Rightarrow> bool" where
  "save_fails f s \<longleftrightarrow>
     connect_fails f \<or> (case fail_at f of None \<Rightarrow> False | Some k \<Rightarrow> k < save_statements s)"

text \<open>
  \<open>runs f m op op0\<close>: started at any connection, \<open>op\<close> leaves the committed database
  alone; it raises if the fault plan names one of its \<open>m\<close> calls and otherwise behaves
  as \<open>op0\<close>, which makes exactly \<open>m\<close> calls and returns.
\<close>

definition runs :: "faults \<Rightarrow> nat \<Rightarrow> 'a db_op \<Rightarrow> 'a db_op \<Rightarrow> bool" where
  "runs f m op op0 \<longleftrightarrow>
     (\<forall>c. committed (snd (op c)) = committed c \<and>
          (case fail_at f of
             Some k \<Rightarrow> if executed c \<le> k \<and> k < executed c + m then fst (op c) = Inl OperationalError
                       else op c = op0 c
           | None \<Rightarrow> op c = op0 c) \<and>
          (\<exists>x. fst (op0 c) = Inr x) \<and> executed (snd (op0 c)) = executed c + m)"

subsection \<open>Invariant of the database and the effect of a save\<close>

text \<open>
  What SQLite and the repository keep true of every database they produce: the primary
  key of \<open>sessions\<close> is unique, no exchange id exceeds the recorded sequence value, and
  every evaluation or coaching row names an exchange id that has been handed out.
\<close>

definition wf_database :: "database \<Rightarrow> bool" where
  "wf_database db \<longleftrightarrow>
     distinct (map c_session_id (sessions db)) \<and>
     (\<forall>e \<in> set (exchanges_tbl db). x_id e \<le> exchanges_seq db) \<and>
     (\<forall>v \<in> set (evaluations db). v_exchange_id v \<le> exchanges_seq db) \<and>
     (\<forall>r \<in> set (coaching_feedback_tbl db). f_exchange_id r \<le> exchanges_seq db)"

text \<open>The rows one pass of the loop body writes, and the database a whole \<open>save\<close>
  leaves when no call raises.\<close>

definition write_exchange :: "iso_text \<Rightarrow> string \<Rightarrow> InterviewExchange \<Rightarrow> database \<Rightarrow> database" where
  "write_exchange now sid e db =
     (case sql_insert_exchange sid e now db of
        (i, db1) \<Rightarrow>
          (let db2 = (case evaluation e of None \<Rightarrow> db1 | Some ev \<Rightarrow> snd (sql_insert_evaluation i ev db1))
           in case coaching_feedback e of None \<Rightarrow> db2 | Some cf \<Rightarrow> snd (sql_insert_coaching i cf db2)))"

definition written :: "datetime \<Rightarrow> database \<Rightarrow> InterviewSession \<Rightarrow> database" where
  "written clock db s =
     (let now = isoformat clock;
          db1 = (if find (\<lambda>r. c_session_id r = session_id s) (sessions db) \<noteq> None
                 then snd (sql_update_session s now db) else snd (sql_insert_session s now db));
          db2 = snd (sql_delete_exchanges (session_id s) db1)
      in fold (write_exchange now (session_id s)) (exchanges s) db2)"

text \<open>
  The \<open>UPDATE\<close> of \<open>save\<close> leaves \<open>resume_text\<close>, \<open>job_description\<close> and
  \<open>started_at\<close> of an existing row as they are. \<open>unchanged_inputs db s\<close>: the
  database has no row for the session, or these three columns of its row already hold
  what \<open>s\<close> holds.
\<close>

definition unchanged_inputs :: "database \<Rightarrow> InterviewSession \<Rightarrow> bool" where
  "unchanged_inputs db s \<longleftrightarrow>
     (case find (\<lambda>r. c_session_id r = session_id s) (sessions db) of
        None \<Rightarrow> True
      | Some r \<Rightarrow> c_resume_text r = resume_text s \<and> c_job_description r = job_description s
                  \<and> c_started_at r = map_option isoformat (started_at s))"

text \<open>The data columns of an exchange row, and the values \<open>save\<close> binds to them.\<close>

definition stored_columns :: "exchange_row \<Rightarrow> string \<times> string \<times> pyfloat \<times> iso_text" where
  "stored_columns r = (x_question r, x_answer r, x_answer_duration_seconds r, x_timestamp r)"

definition bound_columns :: "InterviewExchange \<Rightarrow> string \<times> string \<times> pyfloat \<times> iso_text" where
  "bound_columns e = (question e, answer e, answer_duration_seconds e, isoformat (timestamp e))"

subsection \<open>Cleanup\<close>

text \<open>The \<open>WHERE\<close> condition of the cleanup query, and the database after the delete
  loop has run over a list of session ids.\<close>

definition older_than :: "iso_text \<Rightarrow> session_row \<Rightarrow> bool" where
  "older_than cutoff r = text_less (c_created_at r) cutoff"

definition purge :: "string list \<Rightarrow> database \<Rightarrow> database" where
  "purge ids db =
     db\<lparr>sessions := filter (\<lambda>r. c_session_id r \<notin> set ids) (sessions db),
        exchanges_tbl := filter (\<lambda>e. x_session_id e \<notin> set ids) (exchanges_tbl db)\<rparr>"

subsection \<open>Sample data\<close>

definition sample_evaluation :: AnswerEvaluation where
  "sample_evaluation =
     \<lparr>technical_accuracy = 8, clarity = 8, depth = 7, completeness = 8,
      improvement_tip = ''Could add more specific examples.'',
      positive_note = ''Great explanation of design patterns.''\<rparr>"

definition sample_coaching :: CoachingFeedback where
  "sample_coaching =
     \<lparr>volume_status = ''OK'', pace_status = ''OK'', filler_count = 2, words_per_minute = 125,
      primary_alert = [], alert_level = OK\<rparr>"

definition sample_session :: InterviewSession where
  "sample_session =
     \<lparr>session_id = ''s1'', state = EVALUATING, resume_text = ''R'', job_description = ''J'',
      current_question = Some ''q2'', started_at = Some 50, ended_at = None,
      total_questions_asked = 2, total_filler_words = 2, average_wpm = 125,
      exchanges =
        [\<lparr>question = ''q1'', answer = ''a1'', answer_duration_seconds = 3,
          evaluation = Some sample_evaluation, coaching_feedback = None, timestamp = 100\<rparr>,
         \<lparr>question = ''q2'', answer = ''a2'', answer_duration_seconds = 4,
          evaluation = None, coaching_feedback = Some sample_coaching, timestamp = 200\<rparr>]\<rparr>"

text \<open>A session saved once, and the same session id presented again with another
  resume text and with its start time set.\<close>

definition first_session :: InterviewSession where
  "first_session =
     \<lparr>session_id = ''s1'', state = INTRO, resume_text = ''R'', job_description = ''J'',
      current_question = None, started_at = None, ended_at = None,
      total_questions_asked = 0, total_filler_words = 0, average_wpm = 0, exchanges = []\<rparr>"

definition edited_session :: InterviewSession where
  "edited_session = first_session\<lparr>resume_text := ''R2'', started_at := Some 50\<rparr>"

definition stale_database :: database where
  "stale_database = snd (save no_faults 1000 empty_database first_session)"

text \<open>A database whose only session row carries a state text that is no member value.\<close>

definition malformed_database :: database where
  "malformed_database =
     empty_database\<lparr>sessions :=
       [\<lparr>c_session_id = ''s1'', c_state = ''BROKEN'', c_resume_text = ''R'',
         c_job_description = ''J'', c_current_question = None, c_started_at = None,
         c_ended_at = None, c_total_questions_asked = 0, c_total_filler_words = 0,
         c_average_wpm = 0, c_created_at = IsoText 1000, c_updated_at = IsoText 1000\<rparr>]\<rparr>"

text \<open>
  The cleanup scenario: the clock reads hour 100; session \<open>old\<close> was created at hour 75
  (25 hours ago) and has one exchange row, session \<open>new\<close> at hour 99 (1 hour ago).
\<close>

definition hour :: "int \<Rightarrow> datetime" where
  "hour n = n * 3600000000"

definition aged_row :: "string \<Rightarrow> datetime \<Rightarrow> session_row" where
  "aged_row sid created =
     \<lparr>c_session_id = sid, c_state = ''COMPLETE'', c_resume_text = ''R'',
      c_job_description = ''J'', c_current_question = None, c_started_at = None,
      c_ended_at = None, c_total_questions_asked = 0, c_total_filler_words = 0,
      c_average_wpm = 0, c_created_at = isoformat created, c_updated_at = isoformat created\<rparr>"

definition aged_database :: database where
  "aged_database =
     empty_database\<lparr>sessions := [aged_row ''old'' (hour 75), aged_row ''new'' (hour 99)],
       exchanges_tbl :=
         [\<lparr>x_id = 1, x_session_id = ''old'', x_question = ''q'', x_answer = ''a'',
           x_answer_duration_seconds = 1, x_timestamp = isoformat (hour 75),
           x_created_at = isoformat (hour 75)\<rparr>],
       exchanges_seq := 1\<rparr>"

text \<open>A store without a Redis client and one with a client whose server is empty; the
  orchestrators are stood for by numbers. The TTL is the default of two hours.\<close>

definition memory_store :: "nat RedisSessionStore" where
  "memory_store =
     \<lparr>redis = None, in_memory = Map.empty, session_ttl_seconds = 7200, fallback_to_memory = True\<rparr>"

definition redis_store :: "nat RedisSessionStore" where
  "redis_store =
     \<lparr>redis = Some Map.empty, in_memory = Map.empty, session_ttl_seconds = 7200,
      fallback_to_memory = True\<rparr>"

text \<open>A store whose Redis server holds a live entry for session \<open>s1\<close> (expiring at
  second 7200) and whose in-memory dict is empty.\<close>

definition held_server :: "nat redis_server" where
  "held_server = [session_key ''s1'' \<mapsto> (Pickled 7, 7200)]"

definition held_store :: "nat RedisSessionStore" where
  "held_store = redis_store\<lparr>redis := Some held_server\<rparr>"

definition working_collaborators :: collaborators where
  "working_collaborators =
     \<lparr>transcribe = (\<lambda>audio rate. Inr ''I have five years of experience.''),
      feedback = (\<lambda>audio rate. Inr sample_coaching),
      evaluate = (\<lambda>q a history. Inr sample_evaluation)\<rparr>"

section \<open>Auxiliary lemmas\<close>

subsection \<open>A save fails at the planned call or runs like the fault-free one\<close>

lemma runs_statement: "runs f (Suc 0) (statement f run) (statement no_faults run)"
  by (auto simp: runs_def statement_def no_faults_def split: prod.splits option.splits)

lemma runs_return: "runs f 0 (return x) (return x)"
  by (auto simp: runs_def return_def split: option.splits)

lemma runs_and_then:
  assumes m: "runs f a m m0" and k: "\<And>x. runs f b (k x) (k0 x)"
  shows "runs f (a + b) (and_then m k) (and_then m0 k0)"
  unfolding runs_def
proof (intro allI conjI)
  fix c
  obtain r c1 where mc: "m c = (r, c1)" by (cases "m c")
  obtain r0 c0 where m0c: "m0 c = (r0, c0)" by (cases "m0 c")
  from m have m1: "committed c1 = committed c" using mc by (auto simp: runs_def dest: spec[of _ c])
  from m m0c obtain x0 where x0: "r0 = Inr x0" and e0: "executed c0 = executed c + a"
    by (auto simp: runs_def dest!: spec[of _ c])
  show "committed (snd (and_then m k c)) = committed c"
  proof (cases r)
    case (Inl e) then show ?thesis using mc m1 by (simp add: and_then_def)
  next
    case (Inr x)
    from k[of x] have "committed (snd (k x c1)) = committed c1" by (simp add: runs_def)
    then show ?thesis using mc m1 Inr by (simp add: and_then_def)
  qed
  show "\<exists>x. fst (and_then m0 k0 c) = Inr x"
    using k[of x0] m0c x0 by (auto simp: and_then_def runs_def)
  show "executed (snd (and_then m0 k0 c)) = executed c + (a + b)"
    using k[of x0] m0c x0 e0 by (auto simp: and_then_def runs_def)
  show "case fail_at f of
          None \<Rightarrow> and_then m k c = and_then m0 k0 c
        | Some ka \<Rightarrow> if executed c \<le> ka \<and> ka < executed c + (a + b)
                     then fst (and_then m k c) = Inl OperationalError
                     else and_then m k c = and_then m0 k0 c"
  proof (cases "fail_at f")
    case None
    with m have "m c = m0 c" by (auto simp: runs_def dest!: spec[of _ c])
    moreover from None k[of x0] have "k x0 c0 = k0 x0 c0" by (auto simp: runs_def dest!: spec[of _ c0])
    ultimately show ?thesis using None m0c x0 by (simp add: and_then_def)
  next
    case (Some j)
    show ?thesis
    proof (cases "executed c \<le> j \<and> j < executed c + a")
      case True
      with m Some have "fst (m c) = Inl OperationalError" by (auto simp: runs_def dest!: spec[of _ c])
      then show ?thesis using Some True by (auto simp: and_then_def split: prod.splits)
    next
      case False
      with m Some have eq: "m c = m0 c" by (auto simp: runs_def dest!: spec[of _ c])
      from k[of x0] Some have kk: "if executed c0 \<le> j \<and> j < executed c0 + b then fst (k x0 c0) = Inl OperationalError
          else k x0 c0 = k0 x0 c0" by (auto simp: runs_def dest!: spec[of _ c0])
      show ?thesis using Some False eq m0c x0 e0 kk by (auto simp: and_then_def split: if_splits)
    qed
  qed
qed

lemma runs_save_exchange: "runs f (exchange_statements e) (save_exchange f now sid e) (save_exchange no_faults now sid e)"
proof -
  have a: "runs f (if evaluation e = None then 0 else Suc 0)
      (case evaluation e of None \<Rightarrow> return () | Some ev \<Rightarrow> statement f (sql_insert_evaluation i ev))
      (case evaluation e of None \<Rightarrow> return () | Some ev \<Rightarrow> statement no_faults (sql_insert_evaluation i ev))" for i
    by (auto simp: runs_statement runs_return split: option.splits)
  have b: "runs f (if coaching_feedback e = None then 0 else Suc 0)
      (case coaching_feedback e of None \<Rightarrow> return () | Some ev \<Rightarrow> statement f (sql_insert_coaching i ev))
      (case coaching_feedback e of None \<Rightarrow> return () | Some ev \<Rightarrow> statement no_faults (sql_insert_coaching i ev))" for i
    by (auto simp: runs_statement runs_return split: option.splits)
  show ?thesis
    unfolding save_exchange_def exchange_statements_def add.assoc One_nat_def
    by (intro runs_and_then runs_statement a b)
qed

lemma runs_save_exchanges:
  "runs f (sum_list (map exchange_statements es)) (save_exchanges f now sid es) (save_exchanges no_faults now sid es)"
  by (induction es) (auto intro!: runs_and_then runs_return runs_save_exchange)

lemma runs_save_body:
  "runs f (3 + sum_list (map exchange_statements (exchanges s))) (save_body f clock s) (save_body no_faults clock s)"
proof -
  have a: "runs f (Suc 0) (if row \<noteq> None then statement f (sql_update_session s now)
                else statement f (sql_insert_session s now)) (if row \<noteq> None then statement no_faults (sql_update_session s now)
                else statement no_faults (sql_insert_session s now))" for row now
    by (simp add: runs_statement)
  have "runs f (Suc 0 + (Suc 0 + (Suc 0 + sum_list (map exchange_statements (exchanges s))))) (save_body f clock s) (save_body no_faults clock s)"
    unfolding save_body_def Let_def
    by (intro runs_and_then runs_statement a runs_save_exchanges)
  then show ?thesis by (simp add: numeral_3_eq_3)
qed

lemma save_characterised:
  shows "save f clock db s =
     (if save_fails f s then (Inl OperationalError, db) else save no_faults clock db s)"
  and "fst (save no_faults clock db s) = Inr ()"
proof -
  let ?c = "\<lparr>committed = db, pending = db, executed = 0\<rparr>"
  let ?n = "3 + sum_list (map exchange_statements (exchanges s))"
  note r = runs_save_body[of f s clock, unfolded runs_def, rule_format, of ?c]
  obtain c0 where b0: "save_body no_faults clock s ?c = (Inr (), c0)" and e0: "executed c0 = ?n"
    using r by (cases "save_body no_faults clock s ?c") auto
  have c0c: "committed c0 = db"
    using runs_save_body[of no_faults s clock, unfolded runs_def, rule_format, of ?c] b0 by auto
  show "fst (save no_faults clock db s) = Inr ()"
    by (simp add: save_def get_connection_def no_faults_def[symmetric] save_try_def and_then_def b0 commit_def)
       (simp add: no_faults_def)
  show "save f clock db s =
     (if save_fails f s then (Inl OperationalError, db) else save no_faults clock db s)"
  proof (cases "connect_fails f")
    case True
    then show ?thesis by (simp add: save_def get_connection_def save_fails_def)
  next
    case nc: False
    show ?thesis
    proof (cases "fail_at f")
      case None
      with nc have "f = no_faults" by (cases f) (simp add: no_faults_def)
      then show ?thesis by (simp add: save_fails_def no_faults_def)
    next
      case (Some k)
      consider "k < ?n" | "k = ?n" | "k > ?n" by linarith
      then show ?thesis
      proof cases
        case 1
        with r Some have "fst (save_body f clock s ?c) = Inl OperationalError" by simp
        moreover from r have "committed (snd (save_body f clock s ?c)) = db" by simp
        ultimately show ?thesis using 1 Some nc
          by (cases "save_body f clock s ?c")
             (auto simp: save_def get_connection_def save_fails_def save_statements_def save_try_def and_then_def
               rollback_def close_def)
      next
        case 2
        with r Some have "save_body f clock s ?c = save_body no_faults clock s ?c" by simp
        then show ?thesis using 2 Some nc b0 e0 c0c
          by (simp add: save_def get_connection_def save_fails_def save_statements_def save_try_def and_then_def
               commit_def rollback_def close_def)
      next
        case 3
        with r Some have "save_body f clock s ?c = save_body no_faults clock s ?c" by simp
        then show ?thesis using 3 Some nc b0 e0 c0c
          by (simp add: save_def get_connection_def save_fails_def save_statements_def save_try_def and_then_def
               commit_def rollback_def close_def no_faults_def)
      qed
    qed
  qed
qed

subsection \<open>The loop body on a well-formed database\<close>

lemma fold_max_le: "(\<forall>x \<in> set xs. x \<le> (a::nat)) \<Longrightarrow> fold max xs a = a"
  by (induction xs) (auto simp: max_def)

lemma next_rowid_wf: "wf_database db \<Longrightarrow> next_rowid (exchanges_seq db) (map x_id (exchanges_tbl db)) = Suc (exchanges_seq db)"
  by (simp add: next_rowid_def wf_database_def fold_max_le)

lemma write_exchange_tables:
  assumes "wf_database db"
  defines "i \<equiv> Suc (exchanges_seq db)"
  shows "exchanges_tbl (write_exchange now sid e db) = exchanges_tbl db @
            [\<lparr>x_id = i, x_session_id = sid, x_question = question e, x_answer = answer e,
              x_answer_duration_seconds = answer_duration_seconds e,
              x_timestamp = isoformat (timestamp e), x_created_at = now\<rparr>]"
    and "exchanges_seq (write_exchange now sid e db) = i"
    and "sessions (write_exchange now sid e db) = sessions db"
    and "\<exists>j. evaluations (write_exchange now sid e db) = evaluations db @
            (case evaluation e of None \<Rightarrow> [] | Some ev \<Rightarrow>
              [\<lparr>v_id = j, v_exchange_id = i, v_technical_accuracy = technical_accuracy ev,
                v_clarity = clarity ev, v_depth = depth ev, v_completeness = completeness ev,
                v_improvement_tip = improvement_tip ev, v_positive_note = positive_note ev\<rparr>])"
    and "\<exists>j. coaching_feedback_tbl (write_exchange now sid e db) = coaching_feedback_tbl db @
            (case coaching_feedback e of None \<Rightarrow> [] | Some cf \<Rightarrow>
              [\<lparr>f_id = j, f_exchange_id = i, f_volume_status = volume_status cf,
                f_pace_status = pace_status cf, f_filler_count = filler_count cf,
                f_words_per_minute = words_per_minute cf, f_primary_alert = primary_alert cf,
                f_alert_level = alert_value (alert_level cf)\<rparr>])"
  using next_rowid_wf[OF assms(1)]
  by (auto simp: write_exchange_def sql_insert_exchange_def sql_insert_evaluation_def sql_insert_coaching_def
        Let_def i_def split: option.splits)

lemma write_exchange_wf: "wf_database db \<Longrightarrow> wf_database (write_exchange now sid e db)"
  using write_exchange_tables[of db now sid e]
  apply (clarsimp simp: wf_database_def)
  apply (auto split: option.splits simp: le_Suc_eq)
  done

lemma CoachingAlertLevel_of_value: "CoachingAlertLevel_of (alert_value l) = Inr l"
  by (cases l) (simp_all add: CoachingAlertLevel_of_def)

lemma InterviewState_of_value: "InterviewState_of (state_value st) = Inr st"
  by (cases st) (simp_all add: InterviewState_of_def)

lemma left_join_fst: "jr \<in> set (left_join sid db) \<Longrightarrow> fst jr \<in> set (exchanges_tbl db) \<and> x_session_id (fst jr) = sid"
  by (auto simp: left_join_def)

lemma left_join_write_exchange:
  assumes wf: "wf_database db"
  shows "\<exists>jr. left_join sid (write_exchange now sid e db) = left_join sid db @ [jr]
           \<and> exchange_of_row jr = Inr e \<and> x_id (fst jr) = Suc (exchanges_seq db)"
proof -
  let ?db' = "write_exchange now sid e db"
  let ?i = "Suc (exchanges_seq db)"
  let ?new = "\<lparr>x_id = ?i, x_session_id = sid, x_question = question e, x_answer = answer e,
              x_answer_duration_seconds = answer_duration_seconds e,
              x_timestamp = isoformat (timestamp e), x_created_at = now\<rparr>"
  note t = write_exchange_tables[OF wf, of now sid e]
  from t(4) obtain j where ev: "evaluations ?db' = evaluations db @
            (case evaluation e of None \<Rightarrow> [] | Some ev \<Rightarrow>
              [\<lparr>v_id = j, v_exchange_id = ?i, v_technical_accuracy = technical_accuracy ev,
                v_clarity = clarity ev, v_depth = depth ev, v_completeness = completeness ev,
                v_improvement_tip = improvement_tip ev, v_positive_note = positive_note ev\<rparr>])" by blast
  from t(5) obtain j' where cf: "coaching_feedback_tbl ?db' = coaching_feedback_tbl db @
            (case coaching_feedback e of None \<Rightarrow> [] | Some cf \<Rightarrow>
              [\<lparr>f_id = j', f_exchange_id = ?i, f_volume_status = volume_status cf,
                f_pace_status = pace_status cf, f_filler_count = filler_count cf,
                f_words_per_minute = words_per_minute cf, f_primary_alert = primary_alert cf,
                f_alert_level = alert_value (alert_level cf)\<rparr>])" by blast
  have old_ev: "filter (\<lambda>r. v_exchange_id r = x_id x) (evaluations ?db') = filter (\<lambda>r. v_exchange_id r = x_id x) (evaluations db)"
    if "x \<in> set (exchanges_tbl db)" for x
    using that wf by (auto simp: ev wf_database_def split: option.splits)
  have old_cf: "filter (\<lambda>r. f_exchange_id r = x_id x) (coaching_feedback_tbl ?db') = filter (\<lambda>r. f_exchange_id r = x_id x) (coaching_feedback_tbl db)"
    if "x \<in> set (exchanges_tbl db)" for x
    using that wf by (auto simp: cf wf_database_def split: option.splits)
  have none_ev: "filter (\<lambda>r. v_exchange_id r = ?i) (evaluations db) = []"
    using wf by (auto simp: wf_database_def filter_empty_conv)
  have none_cf: "filter (\<lambda>r. f_exchange_id r = ?i) (coaching_feedback_tbl db) = []"
    using wf by (auto simp: wf_database_def filter_empty_conv)
  let ?F = "\<lambda>d x. concat (map (\<lambda>ev. map (\<lambda>cf. (x, ev, cf))
               (left_partners (filter (\<lambda>r. f_exchange_id r = x_id x) (coaching_feedback_tbl d))))
           (left_partners (filter (\<lambda>r. v_exchange_id r = x_id x) (evaluations d))))"
  have old: "map (?F ?db') (filter (\<lambda>x. x_session_id x = sid) (exchanges_tbl db))
           = map (?F db) (filter (\<lambda>x. x_session_id x = sid) (exchanges_tbl db))"
    by (rule map_cong) (auto simp: old_ev old_cf)
  define jr where "jr = (?new,
       (case evaluation e of None \<Rightarrow> None | Some ev \<Rightarrow>
              Some \<lparr>v_id = j, v_exchange_id = ?i, v_technical_accuracy = technical_accuracy ev,
                v_clarity = clarity ev, v_depth = depth ev, v_completeness = completeness ev,
                v_improvement_tip = improvement_tip ev, v_positive_note = positive_note ev\<rparr>),
       (case coaching_feedback e of None \<Rightarrow> None | Some cf \<Rightarrow>
              Some \<lparr>f_id = j', f_exchange_id = ?i, f_volume_status = volume_status cf,
                f_pace_status = pace_status cf, f_filler_count = filler_count cf,
                f_words_per_minute = words_per_minute cf, f_primary_alert = primary_alert cf,
                f_alert_level = alert_value (alert_level cf)\<rparr>))"
  have new: "?F ?db' ?new = [jr]"
    by (auto simp: ev cf none_ev none_cf left_partners_def jr_def split: option.splits)
  have "left_join sid ?db' = concat (map (?F ?db') (filter (\<lambda>x. x_session_id x = sid) (exchanges_tbl db))) @ ?F ?db' ?new"
    by (simp add: left_join_def t(1))
  also have "\<dots> = left_join sid db @ [jr]"
    unfolding old new by (simp add: left_join_def)
  finally have "left_join sid ?db' = left_join sid db @ [jr]" .
  moreover have "exchange_of_row jr = Inr e"
    by (auto simp: jr_def exchange_of_row_def CoachingAlertLevel_of_value isoformat_def split: option.splits)
  moreover have "x_id (fst jr) = ?i" by (simp add: jr_def)
  ultimately show ?thesis by blast
qed

lemma load_exchanges_append:
  "load_exchanges rows = Inr xs \<Longrightarrow> exchange_of_row jr = Inr x \<Longrightarrow> load_exchanges (rows @ [jr]) = Inr (xs @ [x])"
  by (induction rows arbitrary: xs) (auto split: sum.splits)

lemma left_join_fold_write:
  assumes "wf_database db"
    and "load_exchanges (left_join sid db) = Inr done"
    and "sorted (map (\<lambda>jr. x_id (fst jr)) (left_join sid db))"
  shows "wf_database (fold (write_exchange now sid) es db)
     \<and> load_exchanges (left_join sid (fold (write_exchange now sid) es db)) = Inr (done @ es)
     \<and> sorted (map (\<lambda>jr. x_id (fst jr)) (left_join sid (fold (write_exchange now sid) es db)))
     \<and> length (left_join sid (fold (write_exchange now sid) es db)) = length (left_join sid db) + length es
     \<and> sessions (fold (write_exchange now sid) es db) = sessions db"
  using assms
proof (induction es arbitrary: db "done")
  case Nil
  then show ?case by simp
next
  case (Cons e es)
  from left_join_write_exchange[OF Cons.prems(1), of sid now e]
  obtain jr where jr: "left_join sid (write_exchange now sid e db) = left_join sid db @ [jr]"
     "exchange_of_row jr = Inr e" "x_id (fst jr) = Suc (exchanges_seq db)" by blast
  have keys: "\<forall>r \<in> set (left_join sid db). x_id (fst r) \<le> exchanges_seq db"
    using Cons.prems(1) by (auto simp: wf_database_def dest!: left_join_fst)
  have s: "sorted (map (\<lambda>jr. x_id (fst jr)) (left_join sid (write_exchange now sid e db)))"
    using Cons.prems(3) keys jr(3) by (auto simp: jr(1) sorted_append)
  have l: "load_exchanges (left_join sid (write_exchange now sid e db)) = Inr (done @ [e])"
    by (simp add: jr(1) load_exchanges_append[OF Cons.prems(2) jr(2)])
  from Cons.IH[OF write_exchange_wf[OF Cons.prems(1)] l s] 
  show ?case by (simp add: jr(1) write_exchange_tables(3)[OF Cons.prems(1)])
qed

subsection \<open>Fault-free runs of save and load\<close>

lemma and_then_statement_ok:
  "and_then (statement no_faults run) k c =
     k (fst (run (pending c))) (c\<lparr>pending := snd (run (pending c)), executed := Suc (executed c)\<rparr>)"
  by (simp add: and_then_def statement_def no_faults_def split: prod.splits)

lemma statement_ok:
  "statement no_faults run c =
     (Inr (fst (run (pending c))), c\<lparr>pending := snd (run (pending c)), executed := Suc (executed c)\<rparr>)"
  by (simp add: statement_def no_faults_def split: prod.splits)

lemma and_then_return: "and_then (return x) k c = k x c"
  by (simp add: and_then_def return_def)

lemma save_exchange_ok:
  "save_exchange no_faults now sid e c =
     (Inr (), c\<lparr>pending := write_exchange now sid e (pending c),
                executed := executed c + exchange_statements e\<rparr>)"
  by (auto simp: save_exchange_def write_exchange_def and_then_statement_ok and_then_return statement_ok
        return_def exchange_statements_def Let_def split: option.splits prod.splits)

lemma save_exchanges_ok:
  "save_exchanges no_faults now sid es c =
     (Inr (), c\<lparr>pending := fold (write_exchange now sid) es (pending c),
                executed := executed c + sum_list (map exchange_statements es)\<rparr>)"
  by (induction es arbitrary: c) (simp_all add: return_def and_then_def save_exchange_ok)

lemma save_body_ok:
  "save_body no_faults clock s c =
     (Inr (), c\<lparr>pending := written clock (pending c) s,
                executed := executed c + (3 + sum_list (map exchange_statements (exchanges s)))\<rparr>)"
proof (cases "find (\<lambda>r. c_session_id r = session_id s) (sessions (pending c))")
  case None
  then show ?thesis
    by (simp add: save_body_def Let_def and_then_statement_ok save_exchanges_ok written_def
          sql_select_session_def)
next
  case (Some r)
  then show ?thesis
    by (simp add: save_body_def Let_def and_then_statement_ok save_exchanges_ok written_def
          sql_select_session_def)
qed

lemma save_ok: "save no_faults clock db s = (Inr (), written clock db s)"
proof -
  have "get_connection no_faults db = Inr \<lparr>committed = db, pending = db, executed = 0\<rparr>"
    by (simp add: get_connection_def no_faults_def)
  moreover have "commit no_faults c = (Inr (), c\<lparr>committed := pending c, executed := Suc (executed c)\<rparr>)" for c
    by (simp add: commit_def no_faults_def)
  ultimately show ?thesis
    by (simp add: save_def save_try_def and_then_def save_body_ok close_def)
qed

lemma load_ok:
  "load no_faults db sid =
     (case find (\<lambda>r. c_session_id r = sid) (sessions db) of
        None \<Rightarrow> Inr None
      | Some r \<Rightarrow>
          (case session_of_row r of
             Inl e \<Rightarrow> Inr None
           | Inr session \<Rightarrow>
               (case load_exchanges (sort_key (\<lambda>jr. x_id (fst jr)) (left_join sid db)) of
                  Inl e \<Rightarrow> Inr None
                | Inr xs \<Rightarrow> Inr (Some (session\<lparr>exchanges := xs\<rparr>)))))"
proof -
  have "get_connection no_faults db = Inr \<lparr>committed = db, pending = db, executed = 0\<rparr>"
    by (simp add: get_connection_def no_faults_def)
  then show ?thesis
    by (simp add: load_def load_try_def and_then_statement_ok sql_select_session_def
          sql_select_exchanges_def return_def raise_def split: option.splits sum.splits)
qed

subsection \<open>The session row after the update or insert\<close>

lemma find_map_update:
  assumes "\<And>r. P (g r) = P r"
  shows "find P (map (\<lambda>r. if P r then g r else r) rows) = map_option g (find P rows)"
  using assms by (induction rows) auto

lemma find_append_new: "find P rows = None \<Longrightarrow> find P (rows @ [r]) = (if P r then Some r else None)"
  by (induction rows) (auto split: if_splits)

lemma sessions_write_exchange: "sessions (write_exchange now sid e db) = sessions db"
  by (simp add: write_exchange_def sql_insert_exchange_def sql_insert_evaluation_def
        sql_insert_coaching_def Let_def split: option.splits)

lemma sessions_fold_write: "sessions (fold (write_exchange now sid) es db) = sessions db"
  by (induction es arbitrary: db) (simp_all add: sessions_write_exchange)

lemma truthy_isoformat: "truthy (map_option isoformat x) = (x \<noteq> None)"
  by (cases x) (simp_all add: isoformat_def)

lemma session_of_row_written:
  assumes "c_session_id r = session_id s" "c_state r = state_value (state s)"
    "c_resume_text r = resume_text s" "c_job_description r = job_description s"
    "c_current_question r = current_question s"
    "c_started_at r = map_option isoformat (started_at s)"
    "c_ended_at r = map_option isoformat (ended_at s)"
    "c_total_questions_asked r = total_questions_asked s"
    "c_total_filler_words r = total_filler_words s"
    "c_average_wpm r = average_wpm s"
  shows "session_of_row r = Inr (s\<lparr>exchanges := []\<rparr>)"
proof -
  have a: "(if truthy (map_option isoformat x) then map_sum id Some (fromisoformat (the (map_option isoformat x)))
            else Inr None) = Inr x" for x
    by (cases x) (simp_all add: isoformat_def)
  show ?thesis
    unfolding session_of_row_def assms a InterviewState_of_value by simp
qed

lemma session_row_after_upsert:
  assumes "unchanged_inputs db s"
  shows "\<exists>r. find (\<lambda>r. c_session_id r = session_id s) (sessions (written clock db s)) = Some r
           \<and> session_of_row r = Inr (s\<lparr>exchanges := []\<rparr>)"
proof (cases "find (\<lambda>r. c_session_id r = session_id s) (sessions db)")
  case None
  then show ?thesis
    by (auto simp: written_def Let_def sessions_fold_write sql_delete_exchanges_def sql_insert_session_def
          find_append_new intro!: session_of_row_written)
next
  case (Some r0)
  have f: "find (\<lambda>r. c_session_id r = session_id s)
             (map (\<lambda>r. if c_session_id r = session_id s then g r else r) (sessions db)) = Some (g r0)"
    if "\<And>r. c_session_id (g r) = c_session_id r" for g
    using find_map_update[of "\<lambda>r. c_session_id r = session_id s" g "sessions db"] that Some by simp
  from Some have id0: "c_session_id r0 = session_id s" by (auto simp: find_Some_iff)
  show ?thesis
    using Some assms id0
    by (auto simp: written_def Let_def sessions_fold_write sql_delete_exchanges_def sql_update_session_def
          f unchanged_inputs_def intro!: session_of_row_written)
qed

subsection \<open>Loading back what a save wrote\<close>

lemma session_ids_update:
  "map c_session_id (sessions (snd (sql_update_session s now db))) = map c_session_id (sessions db)"
  by (simp add: sql_update_session_def comp_def if_distrib[of c_session_id] cong: if_cong)

lemma find_None_ids: "find (\<lambda>r. c_session_id r = sid) rows = None \<longleftrightarrow> sid \<notin> set (map c_session_id rows)"
  by (auto simp: find_None_iff)

lemma wf_after_upsert_delete:
  assumes "wf_database db"
  shows "wf_database (snd (sql_delete_exchanges sid
           (if find (\<lambda>r. c_session_id r = session_id s) (sessions db) \<noteq> None
            then snd (sql_update_session s now db) else snd (sql_insert_session s now db))))"
proof (cases "find (\<lambda>r. c_session_id r = session_id s) (sessions db)")
  case None
  then have "session_id s \<notin> set (map c_session_id (sessions db))" by (simp add: find_None_ids)
  with assms None show ?thesis
    by (auto simp: wf_database_def sql_delete_exchanges_def sql_insert_session_def)
next
  case (Some r)
  have "distinct (map c_session_id (sessions (snd (sql_update_session s now db))))"
    using assms by (simp add: session_ids_update wf_database_def)
  with assms Some show ?thesis
    by (auto simp: wf_database_def sql_delete_exchanges_def)
       (auto simp: sql_update_session_def)
qed

lemma left_join_after_delete: "left_join sid (snd (sql_delete_exchanges sid db)) = []"
  by (simp add: left_join_def sql_delete_exchanges_def filter_empty_conv)

lemma written_exchanges:
  assumes "wf_database db"
  shows "wf_database (written clock db s)"
    and "load_exchanges (sort_key (\<lambda>jr. x_id (fst jr)) (left_join (session_id s) (written clock db s))) = Inr (exchanges s)"
    and "length (left_join (session_id s) (written clock db s)) = length (exchanges s)"
proof -
  let ?now = "isoformat clock"
  let ?db1 = "(if find (\<lambda>r. c_session_id r = session_id s) (sessions db) \<noteq> None
                 then snd (sql_update_session s ?now db) else snd (sql_insert_session s ?now db))"
  let ?db2 = "snd (sql_delete_exchanges (session_id s) ?db1)"
  have wf2: "wf_database ?db2" by (rule wf_after_upsert_delete[OF assms])
  have lj: "left_join (session_id s) ?db2 = []" by (rule left_join_after_delete)
  have w: "written clock db s = fold (write_exchange ?now (session_id s)) (exchanges s) ?db2"
    by (simp add: written_def Let_def)
  from left_join_fold_write[OF wf2, of "session_id s" "[]" ?now "exchanges s"] lj
  have r: "wf_database (written clock db s)"
    "load_exchanges (left_join (session_id s) (written clock db s)) = Inr (exchanges s)"
    "sorted (map (\<lambda>jr. x_id (fst jr)) (left_join (session_id s) (written clock db s)))"
    "length (left_join (session_id s) (written clock db s)) = length (exchanges s)"
    unfolding w by simp_all
  show "wf_database (written clock db s)" by (rule r(1))
  show "load_exchanges (sort_key (\<lambda>jr. x_id (fst jr)) (left_join (session_id s) (written clock db s))) = Inr (exchanges s)"
    using r(2) sort_key_id_if_sorted[OF r(3)] by simp
  show "length (left_join (session_id s) (written clock db s)) = length (exchanges s)" by (rule r(4))
qed

lemma roundtrip:
  assumes "wf_database db" "unchanged_inputs db s"
  shows "save no_faults clock db s = (Inr (), written clock db s)"
    and "load no_faults (written clock db s) (session_id s) = Inr (Some s)"
proof -
  show "save no_faults clock db s = (Inr (), written clock db s)" by (rule save_ok)
  from session_row_after_upsert[OF assms(2), of clock] obtain r where
    r: "find (\<lambda>r. c_session_id r = session_id s) (sessions (written clock db s)) = Some r"
       "session_of_row r = Inr (s\<lparr>exchanges := []\<rparr>)" by blast
  show "load no_faults (written clock db s) (session_id s) = Inr (Some s)"
    by (simp add: load_ok r written_exchanges(2)[OF assms(1)])
qed

subsection \<open>The tables after a save\<close>

lemma save_success:
  assumes "save f clock db s = (Inr u, db')"
  shows "db' = written clock db s"
  using assms save_characterised(1)[of f clock db s] save_ok[of clock db s]
  by (auto split: if_splits)

lemma fold_write_rows:
  assumes "wf_database db"
  shows "\<exists>rows. exchanges_tbl (fold (write_exchange now sid) es db) = exchanges_tbl db @ rows
           \<and> map stored_columns rows = map bound_columns es
           \<and> (\<forall>r \<in> set rows. x_session_id r = sid \<and> exchanges_seq db < x_id r)
           \<and> sorted_wrt (<) (map x_id rows)"
  using assms
proof (induction es arbitrary: db)
  case Nil
  then show ?case by simp
next
  case (Cons e es)
  let ?db' = "write_exchange now sid e db"
  let ?new = "\<lparr>x_id = Suc (exchanges_seq db), x_session_id = sid, x_question = question e, x_answer = answer e,
              x_answer_duration_seconds = answer_duration_seconds e,
              x_timestamp = isoformat (timestamp e), x_created_at = now\<rparr>"
  note t = write_exchange_tables[OF Cons.prems, of now sid e]
  from Cons.IH[OF write_exchange_wf[OF Cons.prems, of now sid e]]
  obtain rows where rows: "exchanges_tbl (fold (write_exchange now sid) es ?db') = exchanges_tbl ?db' @ rows"
     "map stored_columns rows = map bound_columns es"
     "\<forall>r \<in> set rows. x_session_id r = sid \<and> exchanges_seq ?db' < x_id r"
     "sorted_wrt (<) (map x_id rows)" by blast
  have "exchanges_tbl (fold (write_exchange now sid) (e # es) db) = exchanges_tbl db @ (?new # rows)"
    by (simp add: rows(1) t(1))
  moreover have "map stored_columns (?new # rows) = map bound_columns (e # es)"
    by (simp add: rows(2) stored_columns_def bound_columns_def)
  moreover have "\<forall>r \<in> set (?new # rows). x_session_id r = sid \<and> exchanges_seq db < x_id r"
    using rows(3) by (auto simp: t(2))
  moreover have "sorted_wrt (<) (map x_id (?new # rows))"
    using rows(3,4) by (auto simp: t(2))
  ultimately show ?case by blast
qed

lemma count_unique:
  "distinct (map f rows) \<Longrightarrow> k \<in> set (map f rows) \<Longrightarrow> length (filter (\<lambda>r. f r = k) rows) = 1"
proof (induction rows)
  case Nil
  then show ?case by simp
next
  case (Cons a rows)
  show ?case
  proof (cases "f a = k")
    case True
    with Cons.prems have "k \<notin> f ` set rows" by simp
    then have "filter (\<lambda>r. f r = k) rows = []"
      unfolding filter_empty_conv by blast
    with True show ?thesis by simp
  next
    case False
    with Cons show ?thesis by auto
  qed
qed

lemma written_tables:
  assumes "wf_database db"
  shows "length (filter (\<lambda>r. c_session_id r = session_id s) (sessions (written clock db s))) = 1"
    and "map stored_columns (filter (\<lambda>e. x_session_id e = session_id s) (exchanges_tbl (written clock db s)))
           = map bound_columns (exchanges s)"
    and "sorted_wrt (<) (map x_id (filter (\<lambda>e. x_session_id e = session_id s) (exchanges_tbl (written clock db s))))"
proof -
  let ?sid = "session_id s"
  let ?now = "isoformat clock"
  let ?db1 = "(if find (\<lambda>r. c_session_id r = ?sid) (sessions db) \<noteq> None
                 then snd (sql_update_session s ?now db) else snd (sql_insert_session s ?now db))"
  let ?db2 = "snd (sql_delete_exchanges ?sid ?db1)"
  have w: "written clock db s = fold (write_exchange ?now ?sid) (exchanges s) ?db2"
    by (simp add: written_def Let_def)
  have wf2: "wf_database ?db2" by (rule wf_after_upsert_delete[OF assms])
  have ids: "?sid \<in> set (map c_session_id (sessions ?db2))"
  proof (cases "find (\<lambda>r. c_session_id r = ?sid) (sessions db)")
    case None
    then show ?thesis by (simp add: sql_delete_exchanges_def sql_insert_session_def)
  next
    case (Some r)
    then have "?sid \<in> set (map c_session_id (sessions db))"
      using find_None_ids[of ?sid "sessions db"] by simp
    then have "?sid \<in> set (map c_session_id (sessions (snd (sql_update_session s ?now db))))"
      by (simp only: session_ids_update)
    with Some show ?thesis by (simp add: sql_delete_exchanges_def)
  qed
  show "length (filter (\<lambda>r. c_session_id r = ?sid) (sessions (written clock db s))) = 1"
    unfolding w sessions_fold_write using wf2 ids by (intro count_unique) (auto simp: wf_database_def)
  from fold_write_rows[OF wf2, of ?now ?sid "exchanges s"] obtain rows where
    rows: "exchanges_tbl (written clock db s) = exchanges_tbl ?db2 @ rows"
     "map stored_columns rows = map bound_columns (exchanges s)"
     "\<forall>r \<in> set rows. x_session_id r = ?sid \<and> exchanges_seq ?db2 < x_id r"
     "sorted_wrt (<) (map x_id rows)" unfolding w by blast
  have none: "filter (\<lambda>e. x_session_id e = ?sid) (exchanges_tbl (snd (sql_delete_exchanges ?sid d))) = []" for d
    by (simp add: sql_delete_exchanges_def filter_empty_conv)
  have all: "filter (\<lambda>e. x_session_id e = ?sid) rows = rows"
    using rows(3) by (simp add: filter_id_conv)
  show "map stored_columns (filter (\<lambda>e. x_session_id e = ?sid) (exchanges_tbl (written clock db s)))
           = map bound_columns (exchanges s)"
    unfolding rows(1) filter_append none all by (simp add: rows(2))
  show "sorted_wrt (<) (map x_id (filter (\<lambda>e. x_session_id e = ?sid) (exchanges_tbl (written clock db s))))"
    unfolding rows(1) filter_append none all by (simp add: rows(4))
qed

lemma resave:
  assumes wf: "wf_database db"
    and s1: "save f1 t1 db s = (Inr u1, db1)"
    and s2: "save f2 t2 db1 s = (Inr u2, db2)"
  shows "length (filter (\<lambda>r. c_session_id r = session_id s) (sessions db2)) = 1"
    and "length (filter (\<lambda>e. x_session_id e = session_id s) (exchanges_tbl db2)) = length (exchanges s)"
    and "map stored_columns (filter (\<lambda>e. x_session_id e = session_id s) (exchanges_tbl db2)) = map bound_columns (exchanges s)"
    and "sorted_wrt (<) (map x_id (filter (\<lambda>e. x_session_id e = session_id s) (exchanges_tbl db2)))"
proof -
  have d1: "db1 = written t1 db s" by (rule save_success[OF s1])
  have d2: "db2 = written t2 db1 s" by (rule save_success[OF s2])
  have wf1: "wf_database db1" unfolding d1 by (rule written_exchanges(1)[OF wf])
  note t = written_tables[OF wf1, of s t2, folded d2]
  show "length (filter (\<lambda>r. c_session_id r = session_id s) (sessions db2)) = 1" by (rule t(1))
  show "map stored_columns (filter (\<lambda>e. x_session_id e = session_id s) (exchanges_tbl db2)) = map bound_columns (exchanges s)"
    by (rule t(2))
  from arg_cong[OF t(2), of length]
  show "length (filter (\<lambda>e. x_session_id e = session_id s) (exchanges_tbl db2)) = length (exchanges s)" by simp
  show "sorted_wrt (<) (map x_id (filter (\<lambda>e. x_session_id e = session_id s) (exchanges_tbl db2)))" by (rule t(3))
qed

text \<open>The invariant holds of the empty database and of every database \<open>save\<close> leaves.\<close>

lemma wf_empty: "wf_database empty_database"
  by (simp add: wf_database_def empty_database_def)

lemma save_preserves_wf:
  assumes "wf_database db"
  shows "wf_database (snd (save f clock db s))"
  using assms save_characterised(1)[of f clock db s] save_ok[of clock db s]
    written_exchanges(1)[OF assms, of clock s]
  by (simp split: if_splits)

subsection \<open>The delete loop of the cleanup\<close>

lemma purge_Nil: "purge [] db = db"
  by (simp add: purge_def)

lemma purge_Cons:
  "purge (sid # rest) db = purge rest (snd (sql_delete_session sid (snd (sql_delete_exchanges sid db))))"
  by (simp add: purge_def sql_delete_session_def sql_delete_exchanges_def conj_commute)

lemma delete_sessions_ok:
  "delete_sessions no_faults ids c =
     (Inr (), c\<lparr>pending := purge ids (pending c), executed := executed c + 2 * length ids\<rparr>)"
  by (induction ids arbitrary: c)
     (simp_all add: return_def purge_Nil purge_Cons and_then_statement_ok)

lemma and_then_Inr: "m c = (Inr x, c') \<Longrightarrow> and_then m k c = k x c'"
  by (simp add: and_then_def)

lemma commit_ok: "commit no_faults c = (Inr (), c\<lparr>committed := pending c, executed := Suc (executed c)\<rparr>)"
  by (simp add: commit_def no_faults_def)

lemma get_connection_ok: "get_connection no_faults db = Inr \<lparr>committed = db, pending = db, executed = 0\<rparr>"
  by (simp add: get_connection_def no_faults_def)

lemma cleanup_ok:
  assumes "minus_hours clock h = Inr cutoff"
  shows "cleanup_old_sessions no_faults clock db h =
     (Inr (length (filter (older_than (isoformat cutoff)) (sessions db))),
      purge (map c_session_id (filter (older_than (isoformat cutoff)) (sessions db))) db)"
  using assms
  by (simp add: cleanup_old_sessions_def cleanup_try_def Let_def and_then_statement_ok
        sql_select_older_def older_than_def[abs_def] and_then_Inr[OF delete_sessions_ok]
        and_then_Inr[OF commit_ok] get_connection_ok return_def close_def)

lemma cleanup_overflow:
  assumes "minus_hours clock h = Inl e"
  shows "cleanup_old_sessions f clock db h =
     (if connect_fails f then (Inl OperationalError, db) else (Inr 0, db))"
  using assms
  by (simp add: cleanup_old_sessions_def cleanup_try_def get_connection_def raise_def rollback_def close_def)

lemma purge_wf: "wf_database db \<Longrightarrow> wf_database (purge ids db)"
  by (auto simp: wf_database_def purge_def distinct_map_filter)

lemma cleanup_preserves_wf:
  assumes "wf_database db"
  shows "wf_database (snd (cleanup_old_sessions no_faults clock db h))"
proof (cases "minus_hours clock h")
  case (Inl e)
  with assms show ?thesis by (simp add: cleanup_overflow)
next
  case (Inr cutoff)
  with assms show ?thesis by (simp add: cleanup_ok purge_wf)
qed

lemma older_than_iso:
  "c_created_at r = isoformat created \<Longrightarrow> older_than (isoformat cutoff) r \<longleftrightarrow> created < cutoff"
  by (simp add: older_than_def isoformat_def)

lemma filter_not_in_selected:
  assumes "distinct (map f rows)"
  shows "filter (\<lambda>r. f r \<notin> set (map f (filter P rows))) rows = filter (\<lambda>r. \<not> P r) rows"
proof (rule filter_cong[OF refl])
  fix r assume r: "r \<in> set rows"
  from assms have inj: "inj_on f (set rows)" by (simp add: distinct_map)
  show "(f r \<notin> set (map f (filter P rows))) = (\<not> P r)"
  proof
    assume "f r \<notin> set (map f (filter P rows))"
    with r show "\<not> P r" by auto
  next
    assume np: "\<not> P r"
    show "f r \<notin> set (map f (filter P rows))"
    proof
      assume "f r \<in> set (map f (filter P rows))"
      then obtain x where "x \<in> set rows" "P x" "f x = f r" by auto
      with inj r have "x = r" by (auto dest: inj_onD)
      with \<open>P x\<close> np show False by simp
    qed
  qed
qed

lemma load_absent:
  assumes "sid \<notin> set (map c_session_id (sessions db))"
  shows "load no_faults db sid = Inr None"
  using assms by (simp add: load_ok find_None_ids[symmetric] del: set_map)

lemma cleanup_exact:
  assumes wf: "wf_database db" and cut: "minus_hours clock h = Inr cutoff"
    and run: "cleanup_old_sessions no_faults clock db h = (r, db')"
  shows "r = Inr (length (filter (older_than (isoformat cutoff)) (sessions db)))"
    and "sessions db' = filter (\<lambda>r. \<not> older_than (isoformat cutoff) r) (sessions db)"
    and "exchanges_tbl db' =
           filter (\<lambda>e. x_session_id e \<notin> set (map c_session_id (filter (older_than (isoformat cutoff)) (sessions db))))
             (exchanges_tbl db)"
    and "\<forall>x \<in> set (filter (older_than (isoformat cutoff)) (sessions db)).
           load no_faults db' (c_session_id x) = Inr None"
proof -
  let ?old = "filter (older_than (isoformat cutoff)) (sessions db)"
  from run cleanup_ok[OF cut, of db] have r: "r = Inr (length ?old)" and d: "db' = purge (map c_session_id ?old) db"
    by simp_all
  from wf have dist: "distinct (map c_session_id (sessions db))" by (simp add: wf_database_def)
  show "r = Inr (length ?old)" by (rule r)
  show s: "sessions db' = filter (\<lambda>r. \<not> older_than (isoformat cutoff) r) (sessions db)"
    unfolding d purge_def using filter_not_in_selected[OF dist, of "older_than (isoformat cutoff)"] by simp
  show "exchanges_tbl db' = filter (\<lambda>e. x_session_id e \<notin> set (map c_session_id ?old)) (exchanges_tbl db)"
    unfolding d purge_def by simp
  show "\<forall>x \<in> set ?old. load no_faults db' (c_session_id x) = Inr None"
  proof
    fix x assume x: "x \<in> set ?old"
    from x have in_old: "c_session_id x \<in> set (map c_session_id ?old)" by (simp del: set_filter)
    have "c_session_id x \<notin> set (map c_session_id (sessions db'))"
    proof
      assume "c_session_id x \<in> set (map c_session_id (sessions db'))"
      then obtain y where y: "y \<in> set (sessions db')" "c_session_id y = c_session_id x" by auto
      from y(1) have "c_session_id y \<notin> set (map c_session_id ?old)"
        unfolding d purge_def by simp
      with in_old y(2) show False by simp
    qed
    then show "load no_faults db' (c_session_id x) = Inr None" by (rule load_absent)
  qed
qed

subsection \<open>What load answers under faults\<close>

lemma load_faults:
  shows "connect_fails f \<Longrightarrow> load f db sid = Inl OperationalError"
    and "\<not> connect_fails f \<Longrightarrow> \<exists>r. load f db sid = Inr r"
    and "\<not> connect_fails f \<Longrightarrow> find (\<lambda>r. c_session_id r = sid) (sessions db) = None \<Longrightarrow> load f db sid = Inr None"
    and "\<not> connect_fails f \<Longrightarrow> load_try f sid \<lparr>committed = db, pending = db, executed = 0\<rparr> = (Inl e, c')
           \<Longrightarrow> load f db sid = Inr None"
     apply (simp add: load_def get_connection_def)
    apply (simp add: load_def get_connection_def split: prod.splits sum.splits)
   apply (simp add: load_def get_connection_def load_try_def and_then_def statement_def sql_select_session_def return_def)
  apply (simp add: load_def get_connection_def)
  done

lemma unchanged_inputs_empty: "unchanged_inputs empty_database s"
  by (simp add: unchanged_inputs_def empty_database_def)

section \<open>Claims about the durable store\<close>

subsection \<open>C1: saving and loading back\<close>

text \<open>
  The claim as stated, for every session and every database, fails where the database
  already holds a row for the session id whose resume text or start time differs:
  \<open>save\<close> takes the \<open>UPDATE\<close> branch, which writes neither \<open>resume_text\<close> nor
  \<open>started_at\<close>, and \<open>load\<close> returns the earlier values. Here \<open>first_session\<close> is
  saved into the empty database, then \<open>edited_session\<close> (same id, resume text \<open>R2\<close>,
  start time set) is saved and loaded back.
\<close>

theorem round_trip_counterexample:
  "wf_database stale_database \<and>
   fst (save no_faults 2000 stale_database edited_session) = Inr () \<and>
   load no_faults (snd (save no_faults 2000 stale_database edited_session)) (session_id edited_session)
     = Inr (Some first_session) \<and>
   first_session \<noteq> edited_session"
  by (simp add: save_ok load_ok stale_database_def written_def first_session_def edited_session_def
        empty_database_def sql_insert_session_def sql_update_session_def sql_delete_exchanges_def
        session_of_row_def InterviewState_of_def isoformat_def left_join_def Let_def
        wf_database_def)

text \<open>
  C1, amended. For every session \<open>s\<close> and every well-formed database that has no row
  for the id of \<open>s\<close>, or whose row for it already holds the resume text, job description
  and start time of \<open>s\<close>: when \<open>save\<close> returns normally, loading the session id back
  from the database it left yields a session equal to \<open>s\<close> in every field, with the
  exchanges in the same order and each evaluation and coaching feedback present exactly
  where \<open>s\<close> has one.
\<close>

theorem save_load_round_trip:
  assumes "wf_database db" and "unchanged_inputs db s" and "save f clock db s = (Inr u, db')"
  shows "load no_faults db' (session_id s) = Inr (Some s)"
  using roundtrip(2)[OF assms(1,2), of clock] save_success[OF assms(3)] by simp

theorem save_load_round_trip_witness:
  "wf_database empty_database \<and> unchanged_inputs empty_database sample_session \<and>
   save no_faults 1000 empty_database sample_session
     = (Inr (), written 1000 empty_database sample_session) \<and>
   load no_faults (written 1000 empty_database sample_session) (session_id sample_session)
     = Inr (Some sample_session)"
  using save_load_round_trip[OF wf_empty unchanged_inputs_empty
      save_ok[of 1000 empty_database sample_session]]
    wf_empty unchanged_inputs_empty save_ok
  by simp

subsection \<open>C2: save is one transaction\<close>

text \<open>
  C2. \<open>save\<close> is one transaction. If any step fails (the connection cannot be opened,
  or one of the driver calls of this save raises) the caller gets the error and the
  database is the one before the call; if no step fails, \<open>save\<close> returns normally. In
  every case in which \<open>save\<close> raises, the database is unchanged.
\<close>

theorem save_is_one_transaction:
  "(save_fails f s \<longrightarrow> save f clock db s = (Inl OperationalError, db)) \<and>
   (\<not> save_fails f s \<longrightarrow> fst (save f clock db s) = Inr ()) \<and>
   (\<forall>e db'. save f clock db s = (Inl e, db') \<longrightarrow> db' = db)"
  using save_characterised(1)[of f clock db s] save_characterised(2)[of clock db s]
  by (auto split: if_splits)

theorem save_is_one_transaction_witness:
  "save_fails \<lparr>connect_fails = False, fail_at = Some 4\<rparr> sample_session \<and>
   save \<lparr>connect_fails = False, fail_at = Some 4\<rparr> 1000 stale_database sample_session
     = (Inl OperationalError, stale_database)"
proof -
  have h: "save_fails \<lparr>connect_fails = False, fail_at = Some 4\<rparr> sample_session"
    by (simp add: save_fails_def save_statements_def exchange_statements_def sample_session_def)
  with save_is_one_transaction[of "\<lparr>connect_fails = False, fail_at = Some 4\<rparr>" sample_session 1000 stale_database]
  show ?thesis by simp
qed

subsection \<open>C3: saving twice\<close>

text \<open>
  C3. Saving the same session twice in succession, both calls returning normally, leaves
  exactly one row of \<open>sessions\<close> with its id and exactly \<open>len(exchanges)\<close> rows of
  \<open>exchanges\<close> with its id; these rows hold, in the order of the in-memory list, the
  question, answer, duration and timestamp of each exchange, and their ids increase in
  that order, so \<open>ORDER BY id\<close> reads them back as the list has them.
\<close>

theorem resave_is_idempotent:
  assumes "wf_database db"
    and "save f1 t1 db s = (Inr u1, db1)"
    and "save f2 t2 db1 s = (Inr u2, db2)"
  shows "length (filter (\<lambda>r. c_session_id r = session_id s) (sessions db2)) = 1
    \<and> length (filter (\<lambda>e. x_session_id e = session_id s) (exchanges_tbl db2)) = length (exchanges s)
    \<and> map stored_columns (filter (\<lambda>e. x_session_id e = session_id s) (exchanges_tbl db2))
        = map bound_columns (exchanges s)
    \<and> sorted_wrt (<) (map x_id (filter (\<lambda>e. x_session_id e = session_id s) (exchanges_tbl db2)))"
  using resave[OF assms] by simp

theorem resave_is_idempotent_witness:
  "wf_database empty_database \<and>
   save no_faults 1000 empty_database sample_session
     = (Inr (), written 1000 empty_database sample_session) \<and>
   save no_faults 2000 (written 1000 empty_database sample_session) sample_session
     = (Inr (), written 2000 (written 1000 empty_database sample_session) sample_session) \<and>
   length (filter (\<lambda>r. c_session_id r = ''s1'')
     (sessions (written 2000 (written 1000 empty_database sample_session) sample_session))) = 1 \<and>
   length (filter (\<lambda>e. x_session_id e = ''s1'')
     (exchanges_tbl (written 2000 (written 1000 empty_database sample_session) sample_session))) = 2"
proof -
  have sid: "session_id sample_session = ''s1''" and n: "length (exchanges sample_session) = 2"
    by (simp_all add: sample_session_def)
  from resave_is_idempotent[OF wf_empty save_ok[of 1000 empty_database sample_session]
      save_ok[of 2000 "written 1000 empty_database sample_session" sample_session]]
  show ?thesis using wf_empty save_ok by (simp add: sid n)
qed

subsection \<open>C4: what load answers when reading fails\<close>

text \<open>
  The claim says that a failure while reading is reported as an error and not as the
  absent value. In the code every exception inside the \<open>try\<close> of \<open>load\<close> is caught and
  answered with \<open>None\<close>: a session row whose state text is no member value raises
  \<open>ValueError\<close> inside the \<open>try\<close> and \<open>load\<close> returns \<open>None\<close>; so does a storage
  error at the first query on a database that holds the session; and \<open>None\<close> is also the
  answer for an id without a row.
\<close>

theorem load_conflates_failure_with_absence:
  "map c_session_id (sessions malformed_database) = [''s1''] \<and>
   map c_session_id (sessions stale_database) = [''s1''] \<and>
   fst (load_try no_faults ''s1'' \<lparr>committed = malformed_database, pending = malformed_database, executed = 0\<rparr>)
     = Inl ValueError \<and>
   load no_faults malformed_database ''s1'' = Inr None \<and>
   load \<lparr>connect_fails = False, fail_at = Some 0\<rparr> stale_database ''s1'' = Inr None \<and>
   load no_faults empty_database ''s1'' = Inr None"
proof (intro conjI)
  show "map c_session_id (sessions malformed_database) = [''s1'']"
    by (simp add: malformed_database_def)
  show "map c_session_id (sessions stale_database) = [''s1'']"
    by (simp add: stale_database_def save_ok written_def first_session_def Let_def
          empty_database_def sql_insert_session_def sql_delete_exchanges_def)
  show "fst (load_try no_faults ''s1''
          \<lparr>committed = malformed_database, pending = malformed_database, executed = 0\<rparr>) = Inl ValueError"
    by (simp add: load_try_def and_then_statement_ok raise_def sql_select_session_def
          malformed_database_def session_of_row_def InterviewState_of_def)
  show "load no_faults malformed_database ''s1'' = Inr None"
    by (simp add: load_ok malformed_database_def session_of_row_def InterviewState_of_def)
  show "load \<lparr>connect_fails = False, fail_at = Some 0\<rparr> stale_database ''s1'' = Inr None"
    by (simp add: load_def load_try_def get_connection_def and_then_def statement_def)
  show "load no_faults empty_database ''s1'' = Inr None"
    by (simp add: load_ok empty_database_def)
qed

text \<open>
  C4, amended. \<open>load\<close> raises only when the connection cannot be opened. Otherwise it
  returns normally: with the absent value when no row of \<open>sessions\<close> has the id, and
  with the same absent value whenever anything inside the read raises (a storage error at
  a query, or a stored state, alert level or timestamp text that does not convert).
\<close>

theorem load_absent_or_swallowed:
  "(connect_fails f \<longrightarrow> load f db sid = Inl OperationalError) \<and>
   (\<not> connect_fails f \<longrightarrow>
      (\<exists>r. load f db sid = Inr r) \<and>
      (find (\<lambda>r. c_session_id r = sid) (sessions db) = None \<longrightarrow> load f db sid = Inr None) \<and>
      (\<forall>e c'. load_try f sid \<lparr>committed = db, pending = db, executed = 0\<rparr> = (Inl e, c')
          \<longrightarrow> load f db sid = Inr None))"
  using load_faults[where f = f and db = db and sid = sid] by blast

theorem load_absent_or_swallowed_witness:
  "connect_fails \<lparr>connect_fails = True, fail_at = None\<rparr> \<and>
   load \<lparr>connect_fails = True, fail_at = None\<rparr> malformed_database ''s1'' = Inl OperationalError \<and>
   \<not> connect_fails no_faults \<and>
   find (\<lambda>r. c_session_id r = ''s1'') (sessions empty_database) = None \<and>
   load no_faults empty_database ''s1'' = Inr None \<and>
   load_try no_faults ''s1'' \<lparr>committed = malformed_database, pending = malformed_database, executed = 0\<rparr>
     = (Inl ValueError, \<lparr>committed = malformed_database, pending = malformed_database, executed = 1\<rparr>) \<and>
   load no_faults malformed_database ''s1'' = Inr None"
proof -
  have a: "connect_fails \<lparr>connect_fails = True, fail_at = None\<rparr>" by simp
  have b: "\<not> connect_fails no_faults" by (simp add: no_faults_def)
  have c: "find (\<lambda>r. c_session_id r = ''s1'') (sessions empty_database) = None"
    by (simp add: empty_database_def)
  have d: "load_try no_faults ''s1'' \<lparr>committed = malformed_database, pending = malformed_database, executed = 0\<rparr>
     = (Inl ValueError, \<lparr>committed = malformed_database, pending = malformed_database, executed = 1\<rparr>)"
    by (simp add: load_try_def and_then_statement_ok raise_def sql_select_session_def
          malformed_database_def empty_database_def session_of_row_def InterviewState_of_def)
  from load_absent_or_swallowed[of "\<lparr>connect_fails = True, fail_at = None\<rparr>" malformed_database "''s1''"]
    load_absent_or_swallowed[of no_faults empty_database "''s1''"]
    load_absent_or_swallowed[of no_faults malformed_database "''s1''"]
    a b c d
  show ?thesis by blast
qed

subsection \<open>C7: cleanup of old sessions\<close>

lemma wf_aged: "wf_database aged_database"
  by (simp add: wf_database_def aged_database_def empty_database_def aged_row_def)

lemma aged_cutoff: "minus_hours (hour 100) 24 = Inr (hour 76)"
  by (simp add: minus_hours_def hour_def datetime_min_def datetime_max_def)

lemma aged_old:
  "filter (older_than (isoformat (hour 76))) (sessions aged_database) = [aged_row ''old'' (hour 75)]"
  by (simp add: aged_database_def empty_database_def aged_row_def older_than_def isoformat_def hour_def)

text \<open>
  C7. On a well-formed database, when no driver call raises and the cutoff
  \<open>now - max_age_hours\<close> is a representable datetime, \<open>cleanup_old_sessions\<close> returns
  the number of session rows whose \<open>created_at\<close> is before the cutoff, removes exactly
  these rows and the exchange rows of their sessions, and a later \<open>load\<close> of a deleted
  id returns the absent value. The witness is the scenario of the specification: of
  sessions created 25 hours and 1 hour ago, \<open>cleanup_old_sessions(24)\<close> deletes the
  first and returns 1.
\<close>

theorem cleanup_deletes_exactly_the_old:
  assumes "wf_database db" and "minus_hours clock max_age_hours = Inr cutoff"
    and "cleanup_old_sessions no_faults clock db max_age_hours = (r, db')"
  shows "r = Inr (length (filter (older_than (isoformat cutoff)) (sessions db)))
    \<and> sessions db' = filter (\<lambda>x. \<not> older_than (isoformat cutoff) x) (sessions db)
    \<and> exchanges_tbl db' =
          filter (\<lambda>e. x_session_id e \<notin> set (map c_session_id (filter (older_than (isoformat cutoff)) (sessions db))))
            (exchanges_tbl db)
    \<and> (\<forall>x \<in> set (filter (older_than (isoformat cutoff)) (sessions db)).
          load no_faults db' (c_session_id x) = Inr None)"
  using cleanup_exact[OF assms] by simp

theorem cleanup_deletes_exactly_the_old_witness:
  "wf_database aged_database \<and> minus_hours (hour 100) 24 = Inr (hour 76) \<and>
   fst (cleanup_old_sessions no_faults (hour 100) aged_database 24) = Inr 1 \<and>
   sessions (snd (cleanup_old_sessions no_faults (hour 100) aged_database 24)) = [aged_row ''new'' (hour 99)] \<and>
   exchanges_tbl (snd (cleanup_old_sessions no_faults (hour 100) aged_database 24)) = [] \<and>
   load no_faults (snd (cleanup_old_sessions no_faults (hour 100) aged_database 24)) ''old'' = Inr None"
proof -
  from cleanup_deletes_exactly_the_old[OF wf_aged aged_cutoff surjective_pairing]
  show ?thesis
    using wf_aged aged_cutoff
    by (simp add: aged_old)
       (simp add: aged_database_def empty_database_def aged_row_def older_than_def isoformat_def hour_def)
qed

section \<open>Claims about the fast store\<close>

lemma pickle_loads_Inr: "pickle_loads p = Inr orch \<longleftrightarrow> p = Pickled orch"
  by (cases p) auto

lemma reply_yields:
  "(reply_truthy reply \<and> pickle_loads (the reply) = Inr orch) \<longleftrightarrow> reply = Some (Pickled orch)"
proof (cases reply)
  case None
  then show ?thesis by simp
next
  case (Some p)
  then show ?thesis by (cases p) auto
qed

lemma get_from_redis_Some:
  "get_from_redis rf now st sid = Some orch \<longleftrightarrow>
     (\<exists>srv. redis st = Some srv \<and> redis_get rf now srv (session_key sid) = Inr (Some (Pickled orch)))"
proof (cases "redis st")
  case None
  then show ?thesis by (simp add: get_from_redis_def)
next
  case (Some srv)
  show ?thesis
  proof (cases "redis_get rf now srv (session_key sid)")
    case (Inl e)
    with Some show ?thesis by (simp add: get_from_redis_def)
  next
    case (Inr reply)
    have "get_from_redis rf now st sid = Some orch \<longleftrightarrow> reply_truthy reply \<and> pickle_loads (the reply) = Inr orch"
      using Some Inr by (cases "pickle_loads (the reply)") (simp_all add: get_from_redis_def)
    with Some Inr show ?thesis by (simp add: reply_yields)
  qed
qed

subsection \<open>C5: put never raises\<close>



subsection \<open>C6: expiry in the fallback\<close>

text \<open>
  C6. After \<open>set_orchestrator\<close> has put an orchestrator into the in-memory dict at time
  \<open>t0\<close> (no Redis client, or the Redis write failed), a \<open>get_orchestrator\<close> at time
  \<open>t1\<close> that takes the fallback path (its Redis branch does not return) returns the
  orchestrator when \<open>t1 - t0\<close> is less than the TTL, and otherwise returns the absent
  value and removes the entry from the dict.
\<close>

theorem fallback_ttl:
  assumes "redis st = None \<or>
           (\<exists>srv e. redis st = Some srv \<and> store_in_redis rf t0 srv (session_ttl_seconds st) sid orch = Inl e)"
    and "st1 = snd (set_orchestrator rf t0 st sid orch)"
    and "get_from_redis rf' t1 st1 sid = None"
  shows "in_memory st1 sid = Some (orch, t0) \<and>
         get_orchestrator rf' t1 st1 sid =
           (if t1 - t0 < real_of_int (session_ttl_seconds st) then (Some orch, st1)
            else (None, st1\<lparr>in_memory := (in_memory st1)(sid := None)\<rparr>))"
proof -
  from assms(1,2) have m: "in_memory st1 sid = Some (orch, t0)"
    and t: "session_ttl_seconds st1 = session_ttl_seconds st"
    by (auto simp: set_orchestrator_def)
  show ?thesis using m t assms(3) by (simp add: get_orchestrator_def)
qed

theorem fallback_ttl_witness:
  "redis memory_store = None \<and>
   get_from_redis \<lparr>redis_raises = False, pickle_raises = False\<rparr> 7199
      (snd (set_orchestrator \<lparr>redis_raises = False, pickle_raises = False\<rparr> 0 memory_store ''s1'' 7)) ''s1'' = None \<and>
   fst (get_orchestrator \<lparr>redis_raises = False, pickle_raises = False\<rparr> 7199
      (snd (set_orchestrator \<lparr>redis_raises = False, pickle_raises = False\<rparr> 0 memory_store ''s1'' 7)) ''s1'') = Some 7 \<and>
   get_from_redis \<lparr>redis_raises = False, pickle_raises = False\<rparr> 7200
      (snd (set_orchestrator \<lparr>redis_raises = False, pickle_raises = False\<rparr> 0 memory_store ''s1'' 7)) ''s1'' = None \<and>
   fst (get_orchestrator \<lparr>redis_raises = False, pickle_raises = False\<rparr> 7200
      (snd (set_orchestrator \<lparr>redis_raises = False, pickle_raises = False\<rparr> 0 memory_store ''s1'' 7)) ''s1'') = None \<and>
   in_memory (snd (get_orchestrator \<lparr>redis_raises = False, pickle_raises = False\<rparr> 7200
      (snd (set_orchestrator \<lparr>redis_raises = False, pickle_raises = False\<rparr> 0 memory_store ''s1'' 7)) ''s1'')) ''s1'' = None"
proof -
  let ?rf = "\<lparr>redis_raises = False, pickle_raises = False\<rparr>"
  let ?st1 = "snd (set_orchestrator ?rf 0 memory_store ''s1'' (7::nat))"
  have a: "redis memory_store = None" by (simp add: memory_store_def)
  then have a': "redis memory_store = None \<or>
           (\<exists>srv e. redis memory_store = Some srv \<and> store_in_redis ?rf 0 srv (session_ttl_seconds memory_store) ''s1'' (7::nat) = Inl e)"
    by simp
  have b: "get_from_redis ?rf t ?st1 ''s1'' = None" for t
    by (simp add: get_from_redis_def set_orchestrator_def memory_store_def)
  have ttl: "session_ttl_seconds memory_store = 7200" by (simp add: memory_store_def)
  from fallback_ttl[OF a' refl b, of 7199] fallback_ttl[OF a' refl b, of 7200] a b
  show ?thesis by (simp add: ttl)
qed

subsection \<open>C8: delete\<close>

text \<open>When the Redis call completes, no entry is left for the session id in the in-memory
  dict nor under its key in Redis, and the result is true exactly when Redis held a live
  entry under the key or the dict held one under the id.\<close>

lemma delete_when_redis_answers:
  assumes "\<not> redis_raises rf" and "delete_orchestrator rf now st sid = (found, st')"
  shows "in_memory st' sid = None
    \<and> (\<forall>srv'. redis st' = Some srv' \<longrightarrow> srv' (session_key sid) = None)
    \<and> (found \<longleftrightarrow> (\<exists>srv. redis st = Some srv \<and> redis_live now srv (session_key sid) \<noteq> None)
                    \<or> in_memory st sid \<noteq> None)"
proof (cases "redis st")
  case None
  with assms(2) show ?thesis
    by (cases "in_memory st sid") (auto simp: delete_orchestrator_def domIff)
next
  case (Some srv)
  with assms show ?thesis
    by (cases "in_memory st sid"; cases "redis_live now srv (session_key sid)")
       (auto simp: delete_orchestrator_def redis_delete_def domIff)
qed

text \<open>When the Redis call raises, the error is logged, the server keeps what it holds,
  and the result tells only whether the in-memory dict held the id.\<close>

lemma delete_when_redis_raises:
  assumes "redis_raises rf" and "delete_orchestrator rf now st sid = (found, st')"
  shows "redis st' = redis st \<and> in_memory st' sid = None \<and> (found \<longleftrightarrow> in_memory st sid \<noteq> None)"
proof (cases "redis st")
  case None
  with assms(2) show ?thesis
    by (cases "in_memory st sid") (auto simp: delete_orchestrator_def domIff)
next
  case (Some srv)
  with assms show ?thesis
    by (cases "in_memory st sid") (auto simp: delete_orchestrator_def redis_delete_def domIff)
qed

lemma held_store_redis: "redis held_store = Some held_server"
  by (simp add: held_store_def)

lemma held_server_live: "redis_live 100 held_server (session_key ''s1'') = Some (Pickled 7)"
  by (simp add: redis_live_def held_server_def)

lemma held_store_memory: "in_memory held_store ''s1'' = None"
  by (simp add: held_store_def redis_store_def)

text \<open>
  The claim as stated, that delete removes the entry from both stores and returns true if
  either held it, fails when the \<open>DEL\<close> call raises: the \<open>except\<close> branch of
  \<open>delete_orchestrator\<close> logs the error and goes on to the in-memory dict alone. With
  a live entry for \<open>s1\<close> in Redis and none in the dict, the result is false and Redis
  still holds the entry.
\<close>

theorem delete_misses_redis_entry_when_del_raises:
  "redis held_store = Some held_server \<and>
   redis_live 100 held_server (session_key ''s1'') = Some (Pickled 7) \<and>
   in_memory held_store ''s1'' = None \<and>
   delete_orchestrator \<lparr>redis_raises = True, pickle_raises = False\<rparr> 100 held_store ''s1''
     = (False, held_store)"
  by (simp add: held_store_redis held_server_live held_store_memory delete_orchestrator_def
        redis_delete_def domIff)

text \<open>
  C8, amended. \<open>delete_orchestrator\<close> always removes the entry for the session id from
  the in-memory dict. When the Redis call completes, no entry is left under the key in
  Redis either, and the result is true exactly when Redis held a live entry or the dict
  held one: it is false only when both report the id absent. When the Redis call raises,
  the error is logged, Redis is left as it was, and the result is true exactly when the
  dict held an entry for the id.
\<close>

theorem delete_reports_presence:
  assumes "delete_orchestrator rf now st sid = (found, st')"
  shows "in_memory st' sid = None
    \<and> (\<not> redis_raises rf \<longrightarrow>
          (\<forall>srv'. redis st' = Some srv' \<longrightarrow> srv' (session_key sid) = None)
          \<and> (found \<longleftrightarrow> (\<exists>srv. redis st = Some srv \<and> redis_live now srv (session_key sid) \<noteq> None)
                          \<or> in_memory st sid \<noteq> None))
    \<and> (redis_raises rf \<longrightarrow> redis st' = redis st \<and> (found \<longleftrightarrow> in_memory st sid \<noteq> None))"
  using delete_when_redis_answers[OF _ assms] delete_when_redis_raises[OF _ assms]
  by (cases "redis_raises rf") simp_all

theorem delete_reports_presence_witness:
  "delete_orchestrator \<lparr>redis_raises = False, pickle_raises = False\<rparr> 100 held_store ''s1''
     = (True, held_store\<lparr>redis := Some (held_server(session_key ''s1'' := None))\<rparr>) \<and>
   \<not> redis_raises \<lparr>redis_raises = False, pickle_raises = False\<rparr> \<and>
   redis_live 100 held_server (session_key ''s1'') \<noteq> None \<and>
   in_memory (held_store\<lparr>redis := Some (held_server(session_key ''s1'' := None))\<rparr>) ''s1'' = None \<and>
   (held_server(session_key ''s1'' := None)) (session_key ''s1'') = None \<and>
   delete_orchestrator \<lparr>redis_raises = True, pickle_raises = False\<rparr> 100 held_store ''s1''
     = (False, held_store) \<and>
   redis_raises \<lparr>redis_raises = True, pickle_raises = False\<rparr> \<and>
   in_memory held_store ''s1'' = None"
proof -
  let ?ok = "\<lparr>redis_raises = False, pickle_raises = False\<rparr>"
  let ?bad = "\<lparr>redis_raises = True, pickle_raises = False\<rparr>"
  let ?st' = "held_store\<lparr>redis := Some (held_server(session_key ''s1'' := None))\<rparr>"
  have a: "delete_orchestrator ?ok 100 held_store ''s1'' = (True, ?st')"
    by (simp add: held_store_redis held_server_live held_store_memory delete_orchestrator_def
          redis_delete_def domIff)
  have b: "delete_orchestrator ?bad 100 held_store ''s1'' = (False, held_store)"
    by (simp add: held_store_redis held_server_live held_store_memory delete_orchestrator_def
          redis_delete_def domIff)
  from delete_reports_presence[OF a] delete_reports_presence[OF b] a b held_server_live
  show ?thesis by simp
qed

subsection \<open>C10: get consults the fallback when Redis has no entry\<close>

text \<open>
  C10. With a Redis client whose \<open>GET\<close> returns no entry without raising, and an
  unexpired entry in the in-memory dict, \<open>get_orchestrator\<close> returns the entry of the
  dict. In general, whenever the Redis branch does not return, the result is what the
  in-memory check gives; and the Redis branch returns, skipping the dict, exactly when
  \<open>GET\<close> yields a pickled orchestrator.
\<close>

theorem fallback_consulted_when_redis_has_no_entry:
  "(redis st = Some srv \<and> redis_get rf now srv (session_key sid) = Inr None \<and>
      in_memory st sid = Some (orch, stored_at) \<and>
      now - stored_at < real_of_int (session_ttl_seconds st)
      \<longrightarrow> get_orchestrator rf now st sid = (Some orch, st))
   \<and> (get_from_redis rf now st sid = None \<longrightarrow>
         get_orchestrator rf now st sid =
           (case in_memory st sid of
              None \<Rightarrow> (None, st)
            | Some (orch', stored_at') \<Rightarrow>
                if now - stored_at' < real_of_int (session_ttl_seconds st) then (Some orch', st)
                else (None, st\<lparr>in_memory := (in_memory st)(sid := None)\<rparr>)))
   \<and> (get_from_redis rf now st sid = Some orch'' \<longleftrightarrow>
         (\<exists>srv'. redis st = Some srv' \<and>
            redis_get rf now srv' (session_key sid) = Inr (Some (Pickled orch''))))
   \<and> (get_from_redis rf now st sid = Some orch'' \<longrightarrow> get_orchestrator rf now st sid = (Some orch'', st))"
proof (intro conjI)
  show "redis st = Some srv \<and> redis_get rf now srv (session_key sid) = Inr None \<and>
      in_memory st sid = Some (orch, stored_at) \<and>
      now - stored_at < real_of_int (session_ttl_seconds st)
      \<longrightarrow> get_orchestrator rf now st sid = (Some orch, st)"
    by (simp add: get_orchestrator_def get_from_redis_def)
  show "get_from_redis rf now st sid = None \<longrightarrow>
         get_orchestrator rf now st sid =
           (case in_memory st sid of
              None \<Rightarrow> (None, st)
            | Some (orch', stored_at') \<Rightarrow>
                if now - stored_at' < real_of_int (session_ttl_seconds st) then (Some orch', st)
                else (None, st\<lparr>in_memory := (in_memory st)(sid := None)\<rparr>))"
    by (simp add: get_orchestrator_def Let_def split: option.splits)
  show "get_from_redis rf now st sid = Some orch'' \<longleftrightarrow>
         (\<exists>srv'. redis st = Some srv' \<and>
            redis_get rf now srv' (session_key sid) = Inr (Some (Pickled orch'')))"
    by (rule get_from_redis_Some)
  show "get_from_redis rf now st sid = Some orch'' \<longrightarrow> get_orchestrator rf now st sid = (Some orch'', st)"
    by (simp add: get_orchestrator_def)
qed

theorem fallback_consulted_when_redis_has_no_entry_witness:
  "redis (redis_store\<lparr>in_memory := [''s1'' \<mapsto> (7, 0)]\<rparr>) = Some Map.empty \<and>
   redis_get \<lparr>redis_raises = False, pickle_raises = False\<rparr> 100 Map.empty (session_key ''s1'')
     = (Inr None :: error + nat payload option) \<and>
   in_memory (redis_store\<lparr>in_memory := [''s1'' \<mapsto> (7, 0)]\<rparr>) ''s1'' = Some (7, 0) \<and>
   (100::real) - 0 < real_of_int (session_ttl_seconds (redis_store\<lparr>in_memory := [''s1'' \<mapsto> (7, 0)]\<rparr>)) \<and>
   get_orchestrator \<lparr>redis_raises = False, pickle_raises = False\<rparr> 100
       (redis_store\<lparr>in_memory := [''s1'' \<mapsto> (7, 0)]\<rparr>) ''s1''
     = (Some 7, redis_store\<lparr>in_memory := [''s1'' \<mapsto> (7, 0)]\<rparr>)"
proof -
  let ?st = "redis_store\<lparr>in_memory := [''s1'' \<mapsto> (7::nat, 0::real)]\<rparr>"
  let ?rf = "\<lparr>redis_raises = False, pickle_raises = False\<rparr>"
  have a: "redis ?st = Some Map.empty" by (simp add: redis_store_def)
  have b: "redis_get ?rf 100 Map.empty (session_key ''s1'') = (Inr None :: error + nat payload option)"
    by (simp add: redis_get_def redis_live_def)
  have c: "in_memory ?st ''s1'' = Some (7, 0)" by simp
  have d: "(100::real) - 0 < real_of_int (session_ttl_seconds ?st)" by (simp add: redis_store_def)
  from fallback_consulted_when_redis_has_no_entry[of ?st Map.empty ?rf 100 "''s1''" 7 0, THEN conjunct1]
    a b c d
  show ?thesis by simp
qed

section \<open>Claims about the orchestrator\<close>

text \<open>With an active session and working collaborators the model records one exchange
  and makes the three collaborator calls in order.\<close>

lemma process_answer_with_session:
  assumes "start_session 50 ''s1'' new_orchestrator ''R'' ''J'' = (Inr sid, orc, evs)"
  shows "\<exists>orc'. process_answer working_collaborators 1000 3 orc ''audio'' 16000
           = (Inr (''I have five years of experience.'', sample_coaching, sample_evaluation), orc',
              [Transcribed ''audio'' 16000, Coached ''audio'' 16000,
               Evaluated [] ''I have five years of experience.''])
         \<and> map_option (length \<circ> exchanges) (o_session orc') = Some 1"
  using assms
  by (auto simp: start_session_def new_orchestrator_def process_answer_def working_collaborators_def Let_def)

subsection \<open>C9: processAnswer without a session\<close>

text \<open>
  C9. An orchestrator without an active session is in state \<open>IDLE\<close>; this is also the
  case after \<open>reset\<close>. \<open>process_answer\<close> then fails with the session error, leaves the
  orchestrator as it was (no session is created, no exchange recorded) and makes no
  transcription, coaching or evaluation call and no observer notification.
\<close>

theorem process_answer_without_session:
  assumes "o_session orc = None"
  shows "orchestrator_state orc = IDLE
    \<and> process_answer col clock duration orc audio sample_rate = (Inl SessionError, orc, [])
    \<and> o_session (reset orc') = None
    \<and> process_answer col clock duration (reset orc') audio sample_rate = (Inl SessionError, reset orc', [])"
  using assms by (simp add: process_answer_def orchestrator_state_def reset_def)

theorem process_answer_without_session_witness:
  "o_session new_orchestrator = None \<and> orchestrator_state new_orchestrator = IDLE \<and>
   process_answer working_collaborators 1000 3 new_orchestrator ''audio'' 16000
     = (Inl SessionError, new_orchestrator, [])"
proof -
  have a: "o_session new_orchestrator = None" by (simp add: new_orchestrator_def)
  from process_answer_without_session[OF a, of working_collaborators 1000 3 "''audio''" 16000] a
  show ?thesis by simp
qed

end
